theory Spec2Isabelle
  imports Main "HOL-Library.Word" "HOL-Library.AList" "HOL-Library.Multiset"
begin

unbundle bit_operations_syntax

section \<open>Data model of the dispatch package\<close>

text \<open>
  The nfqueue half of package \<open>dispatch\<close> (\<open>src/unnamed/part_000\<close>) and the
  subscription registry of \<open>src/unnamed/part_002\<close>.  Go's \<open>uint8\<close>, \<open>uint16\<close>,
  \<open>uint32\<close> and \<open>uint64\<close> are words of that width, \<open>int\<close> is \<open>int\<close> (the only
  \<open>int\<close> values that are computed with are the priority counter, which stays within
  \<open>0..101\<close>, and the packet length, which is only converted), a \<open>net.IP\<close> is its
  byte list, and a Go map with string keys is an association list with distinct keys:
  assignment is \<open>AList.update\<close>, \<open>delete\<close> is \<open>AList.delete\<close>, \<open>len\<close> is \<open>length\<close>, and
  \<open>range\<close> visits the list in its order (Go leaves the order open).
\<close>

type_synonym IP = "8 word list"

record Tuple =
  Protocol :: "8 word"
  ClientAddress :: IP
  ClientPort :: "16 word"
  ServerAddress :: IP
  ServerPort :: "16 word"

text \<open>The layers of a decoded \<open>gopacket.Packet\<close> that \<open>nfqueueCallback\<close> asks for;
  \<open>None\<close> is the \<open>nil\<close> that \<open>Packet.Layer\<close> returns for an absent layer.\<close>

record IPv4 =
  ip4_Protocol :: "8 word"
  ip4_SrcIP :: IP
  ip4_DstIP :: IP

record IPv6 =
  ip6_NextHeader :: "8 word"
  ip6_SrcIP :: IP
  ip6_DstIP :: IP

record TCP =
  tcp_SrcPort :: "16 word"
  tcp_DstPort :: "16 word"

record UDP =
  udp_SrcPort :: "16 word"
  udp_DstPort :: "16 word"

record ICMPv4 =
  icmp_Id :: "16 word"

record Packet =
  LayerTypeIPv4 :: "IPv4 option"
  LayerTypeIPv6 :: "IPv6 option"
  LayerTypeTCP :: "TCP option"
  LayerTypeUDP :: "UDP option"
  LayerTypeICMPv4 :: "ICMPv4 option"
  ApplicationLayer :: "8 word list option"

text \<open>
  The exported fields of a \<open>SessionEntry\<close>, as \<open>createSessionEntry\<close> and
  \<open>nfqueueCallback\<close> assign them (the struct declaration is not part of the sources; the
  widths are those of the specification's data model).  The two time stamps are readings
  of a clock that the callback receives as an argument.  The \<open>attachments\<close> bag is
  created empty and never read by the dispatch; it is left out.
\<close>

record SessionFields =
  SessionID :: "64 word"
  ConntrackID :: "32 word"
  CreationTime :: nat
  LastActivityTime :: nat
  PacketCount :: "64 word"
  ByteCount :: "64 word"
  EventCount :: "64 word"
  ClientSideTuple :: Tuple
  ConntrackConfirmed :: bool

text \<open>
  \<open>NfqueueMessage.Session\<close> is a pointer to the session.  A handler lives in another
  package and can read the exported fields through it, not the subscription map, so the
  message carries the exported fields as they are when the handlers are called.
\<close>

record NfqueueMessage =
  Session :: "SessionFields option"
  MsgTuple :: Tuple
  Packet :: Packet
  Length :: int
  ClientToServer :: bool
  IP4Layer :: "IPv4 option"
  IP6Layer :: "IPv6 option"
  TCPLayer :: "TCP option"
  UDPLayer :: "UDP option"
  ICMPv4Layer :: "ICMPv4 option"
  Payload :: "8 word list"

record NfqueueResult =
  Owner :: string
  PacketMark :: "32 word"
  SessionRelease :: bool

text \<open>
  A handler is run on a goroutine of its own under the guard timer \<open>maxAllowedTime\<close>.
  Its value here is what the \<open>select\<close> in \<open>callSubscribers\<close> receives from it: \<open>Some\<close>
  result when the handler answers first, \<open>None\<close> when the timer fires first.
\<close>

type_synonym NfqueueHandlerFunction =
  "NfqueueMessage \<Rightarrow> 32 word \<Rightarrow> bool \<Rightarrow> NfqueueResult option"

record SubscriptionHolder =
  Owner :: string
  Priority :: int
  NfqueueFunc :: NfqueueHandlerFunction

type_synonym subscriptions = "(string \<times> SubscriptionHolder) list"

record SessionEntry = SessionFields +
  subscriptions :: subscriptions

datatype fatal = ConstraintFailed | DuplicateSubscription

definition NfDrop :: int where
  "NfDrop = 0"

definition NfAccept :: int where
  "NfAccept = 1"

text \<open>
  The process-wide state: the registry \<open>nfqueueList\<close>, the session table, the session
  counter, the dictionary service, and the lines that
  \<open>logger.Trace("Calling nfqueue  plugin:%s priority:%d session_id:%d")\<close> writes, one
  per handler invocation.  Every \<open>*SessionEntry\<close> is entered in the table once, by
  \<open>createSessionEntry\<close> under the forward key of a freshly allocated record, so a
  pointer is the key it is stored under and the table holds the records themselves.
\<close>

type_synonym dictionary = "32 word \<times> string \<Rightarrow> bool option"

record dispatch =
  nfqueueList :: subscriptions
  sessionTable :: "string \<Rightarrow> SessionEntry option"
  sessionIndex :: "64 word"
  dict :: dictionary
  nfqueueTrace :: "(string \<times> int \<times> 64 word) list"

section \<open>Collaborators that are not in the sources\<close>

fun decimal :: "nat \<Rightarrow> string" where
  "decimal n =
     (if n < 10 then [''0123456789'' ! n]
      else decimal (n div 10) @ [''0123456789'' ! (n mod 10)])"

declare decimal.simps [simp del]

fun dotted :: "string list \<Rightarrow> string" where
  "dotted [] = []"
| "dotted [x] = x"
| "dotted (x # y # ys) = x @ ''.'' @ dotted (y # ys)"

definition IP_String :: "IP \<Rightarrow> string" where
  "IP_String ip = dotted (map (\<lambda>b. decimal (unat b)) ip)"

text \<open>Modelled from the spec: \<open>Tuple.String\<close>, the forward form
  \<open>proto|client:cport-server:sport\<close> (the format of \<open>support.Tuple2String\<close>,
  \<open>%d|%s:%d-%s:%d\<close>), with an address printed as its bytes in dotted decimal.\<close>

definition Tuple_String :: "Tuple \<Rightarrow> string" where
  "Tuple_String t =
     decimal (unat (Protocol t)) @ ''|'' @
     IP_String (ClientAddress t) @ '':'' @ decimal (unat (ClientPort t)) @ ''-'' @
     IP_String (ServerAddress t) @ '':'' @ decimal (unat (ServerPort t))"

text \<open>Modelled from the spec: \<open>Tuple.StringReverse\<close>, the reverse form, client and
  server swapped.\<close>

definition Tuple_StringReverse :: "Tuple \<Rightarrow> string" where
  "Tuple_StringReverse t =
     decimal (unat (Protocol t)) @ ''|'' @
     IP_String (ServerAddress t) @ '':'' @ decimal (unat (ServerPort t)) @ ''-'' @
     IP_String (ClientAddress t) @ '':'' @ decimal (unat (ClientPort t))"

text \<open>Modelled from the spec: \<open>findSessionEntry\<close>, \<open>insertSessionEntry\<close> and
  \<open>removeSessionEntry\<close>, the session table's \<open>findByTuple\<close>, \<open>insert\<close> (replacing any
  prior entry with the same key) and \<open>remove\<close>.\<close>

definition findSessionEntry :: "string \<Rightarrow> dispatch \<Rightarrow> SessionEntry option" where
  "findSessionEntry finder st = sessionTable st finder"

definition insertSessionEntry :: "string \<Rightarrow> SessionEntry \<Rightarrow> dispatch \<Rightarrow> dispatch" where
  "insertSessionEntry key session st =
     st\<lparr>sessionTable := (sessionTable st)(key \<mapsto> session)\<rparr>"

definition removeSessionEntry :: "string \<Rightarrow> dispatch \<Rightarrow> dispatch" where
  "removeSessionEntry remover st =
     st\<lparr>sessionTable := (sessionTable st)(remover := None)\<rparr>"

text \<open>Modelled from the spec: \<open>nextSessionID\<close>, which hands out the value of the
  monotonic counter \<open>sessionIndex\<close> and advances it by one.\<close>

definition nextSessionID :: "dispatch \<Rightarrow> 64 word \<times> dispatch" where
  "nextSessionID st = (sessionIndex st, st\<lparr>sessionIndex := sessionIndex st + 1\<rparr>)"

text \<open>Modelled from the spec: \<open>dict.AddSessionEntry\<close>, which sets the dictionary entry
  \<open>(ctid, key)\<close> to the value.\<close>

definition AddSessionEntry :: "32 word \<Rightarrow> string \<Rightarrow> bool \<Rightarrow> dictionary \<Rightarrow> dictionary" where
  "AddSessionEntry ctid key v d = d((ctid, key) \<mapsto> v)"

section \<open>The subscription registry\<close>

text \<open>\<open>InsertNfqueueSubscription\<close> of \<open>part_000\<close> (lines 55-65), on \<open>nfqueueList\<close>.\<close>

definition InsertNfqueueSubscription ::
  "string \<Rightarrow> int \<Rightarrow> NfqueueHandlerFunction \<Rightarrow> dispatch \<Rightarrow> dispatch" where
  "InsertNfqueueSubscription owner priority function st =
     (let holder = \<lparr>SubscriptionHolder.Owner = owner, Priority = priority,
                     NfqueueFunc = function\<rparr>
      in st\<lparr>nfqueueList := AList.update owner holder (nfqueueList st)\<rparr>)"

text \<open>\<open>InsertNfqueueSubscription\<close> of \<open>part_002\<close> (lines 115-130), on \<open>nfqueueSubList\<close>:
  the holder is stored, then a duplicate owner panics.\<close>

definition InsertNfqueueSubscription_dispatch ::
  "string \<Rightarrow> int \<Rightarrow> NfqueueHandlerFunction \<Rightarrow> subscriptions \<Rightarrow> fatal + subscriptions" where
  "InsertNfqueueSubscription_dispatch owner priority function nfqueueSubList =
     (let holder = \<lparr>SubscriptionHolder.Owner = owner, Priority = priority,
                     NfqueueFunc = function\<rparr>;
          existing = (map_of nfqueueSubList owner \<noteq> None);
          nfqueueSubList' = AList.update owner holder nfqueueSubList
      in if existing then Inl DuplicateSubscription else Inr nfqueueSubList')"

text \<open>The loop \<open>for k, v := range m { copy[k] = v }\<close> into a fresh map.\<close>

definition copySubscriptions :: "subscriptions \<Rightarrow> subscriptions" where
  "copySubscriptions m = fold (\<lambda>kv copy. AList.update (fst kv) (snd kv) copy) m []"

definition AttachNfqueueSubscriptions :: "dispatch \<Rightarrow> SessionEntry \<Rightarrow> SessionEntry" where
  "AttachNfqueueSubscriptions st session =
     session\<lparr>subscriptions := copySubscriptions (nfqueueList st)\<rparr>"

definition MirrorNfqueueSubscriptions :: "SessionEntry \<Rightarrow> subscriptions" where
  "MirrorNfqueueSubscriptions session = copySubscriptions (subscriptions session)"

definition ReleaseSession ::
  "SessionEntry \<Rightarrow> string \<Rightarrow> dictionary \<Rightarrow> SessionEntry \<times> dictionary" where
  "ReleaseSession session owner d =
     (let origLen = length (subscriptions session) in
      if origLen = 0 then (session, d)
      else
        let session' = session\<lparr>subscriptions := AList.delete owner (subscriptions session)\<rparr>;
            len = length (subscriptions session')
        in if len = 0
           then (session', AddSessionEntry (ConntrackID session') ''bypass_packetd'' True d)
           else (session', d))"

section \<open>The fan-out\<close>

text \<open>What the goroutine of one subscriber sends on \<open>resultsChannel\<close> (lines 245-259):
  the handler's result, or the forced release under the map key when the timer fires.\<close>

definition collectResult ::
  "NfqueueMessage \<Rightarrow> 32 word \<Rightarrow> bool \<Rightarrow> string \<times> SubscriptionHolder \<Rightarrow> NfqueueResult" where
  "collectResult mess ctid newSession kv =
     (case NfqueueFunc (snd kv) mess ctid newSession of
        Some result \<Rightarrow> result
      | None \<Rightarrow> \<lparr>NfqueueResult.Owner = fst kv, PacketMark = 0, SessionRelease = True\<rparr>)"

text \<open>One turn of the loop that reads \<open>resultsChannel\<close> (lines 276-280).\<close>

definition mergeResult ::
  "NfqueueResult \<Rightarrow> 32 word \<times> SessionEntry \<times> dictionary
     \<Rightarrow> 32 word \<times> SessionEntry \<times> dictionary" where
  "mergeResult result acc =
     (case acc of (pmark, session, d) \<Rightarrow>
        (pmark OR PacketMark result,
         if SessionRelease result
         then ReleaseSession session (NfqueueResult.Owner result) d
         else (session, d)))"

text \<open>The subscribers of the snapshot that the scan of one priority starts
  (lines 240-243).\<close>

definition layer :: "int \<Rightarrow> subscriptions \<Rightarrow> subscriptions" where
  "layer priority sublist = filter (\<lambda>kv. Priority (snd kv) = priority) sublist"

text \<open>
  The loop \<open>for subcount != subtotal\<close> (lines 234-290).  The results of one layer are
  merged in the order of the snapshot; the channel delivers them in any order.  The
  accumulator is the mark, the session and the dictionary; \<open>called\<close> collects key and
  priority of every handler started, as the trace line before each \<open>go func\<close> prints them.
\<close>

function callSubscribers_loop ::
  "subscriptions \<Rightarrow> nat \<Rightarrow> NfqueueMessage \<Rightarrow> 32 word \<Rightarrow> bool \<Rightarrow> nat \<Rightarrow> int
     \<Rightarrow> 32 word \<times> SessionEntry \<times> dictionary \<Rightarrow> (string \<times> int) list
     \<Rightarrow> fatal + ((32 word \<times> SessionEntry \<times> dictionary) \<times> (string \<times> int) list)" where
  "callSubscribers_loop sublist subtotal mess ctid newSession subcount priority acc called =
     (if subcount = subtotal then Inr (acc, called)
      else
        let hits = layer priority sublist;
            called' = called @ map (\<lambda>kv. (fst kv, priority)) hits;
            hitcount = length hits;
            acc' = fold mergeResult (map (collectResult mess ctid newSession) hits) acc;
            priority' = priority + 1
        in if priority' > 100 then Inl ConstraintFailed
           else callSubscribers_loop sublist subtotal mess ctid newSession
                  (subcount + hitcount) priority' acc' called')"
  by pat_completeness auto
termination
  by (relation "measure (\<lambda>(sublist, subtotal, mess, ctid, newSession, subcount, priority, acc, called).
        nat (101 - priority))") auto

declare callSubscribers_loop.simps [simp del]

definition callSubscribers ::
  "32 word \<Rightarrow> SessionEntry \<Rightarrow> NfqueueMessage \<Rightarrow> 32 word \<Rightarrow> bool \<Rightarrow> dictionary
     \<Rightarrow> fatal + ((int \<times> 32 word) \<times> SessionEntry \<times> dictionary \<times> (string \<times> int) list)" where
  "callSubscribers ctid session mess pmark newSession d =
     (let sublist = MirrorNfqueueSubscriptions session;
          subtotal = length sublist
      in case callSubscribers_loop sublist subtotal mess ctid newSession 0 0 (pmark, session, d) [] of
           Inl e \<Rightarrow> Inl e
         | Inr ((pmark', session', d'), called) \<Rightarrow> Inr ((NfAccept, pmark'), session', d', called))"

section \<open>The callback\<close>

text \<open>\<open>var mess NfqueueMessage\<close>: every field at its zero value.\<close>

definition zeroMessage :: NfqueueMessage where
  "zeroMessage =
     \<lparr>Session = None,
      MsgTuple = \<lparr>Protocol = 0, ClientAddress = [], ClientPort = 0,
                  ServerAddress = [], ServerPort = 0\<rparr>,
      Packet = \<lparr>LayerTypeIPv4 = None, LayerTypeIPv6 = None, LayerTypeTCP = None,
                LayerTypeUDP = None, LayerTypeICMPv4 = None, ApplicationLayer = None\<rparr>,
      Length = 0, ClientToServer = False, IP4Layer = None, IP6Layer = None,
      TCPLayer = None, UDPLayer = None, ICMPv4Layer = None, Payload = []\<rparr>"

definition dupIP :: "IP \<Rightarrow> IP" where
  "dupIP ip = ip"

text \<open>Lines 123-135: the network layer; \<open>None\<close> when the packet has neither.\<close>

definition parseIP :: "NfqueueMessage \<Rightarrow> NfqueueMessage option" where
  "parseIP mess =
     (case LayerTypeIPv4 (Packet mess) of
        Some ip4 \<Rightarrow>
          Some (mess\<lparr>IP4Layer := Some ip4,
                     MsgTuple := (MsgTuple mess)\<lparr>Protocol := ip4_Protocol ip4,
                                   ClientAddress := dupIP (ip4_SrcIP ip4),
                                   ServerAddress := dupIP (ip4_DstIP ip4)\<rparr>\<rparr>)
      | None \<Rightarrow>
         (case LayerTypeIPv6 (Packet mess) of
            Some ip6 \<Rightarrow>
              Some (mess\<lparr>IP6Layer := Some ip6,
                         MsgTuple := (MsgTuple mess)\<lparr>Protocol := ip6_NextHeader ip6,
                                       ClientAddress := dupIP (ip6_SrcIP ip6),
                                       ServerAddress := dupIP (ip6_DstIP ip6)\<rparr>\<rparr>)
          | None \<Rightarrow> None))"

text \<open>Lines 139-171: the transport layers and the payload, each overwriting the ports
  set before it.\<close>

definition parseTCP :: "NfqueueMessage \<Rightarrow> NfqueueMessage" where
  "parseTCP mess =
     (case LayerTypeTCP (Packet mess) of
        Some tcp \<Rightarrow>
          mess\<lparr>TCPLayer := Some tcp,
               MsgTuple := (MsgTuple mess)\<lparr>ClientPort := tcp_SrcPort tcp,
                             ServerPort := tcp_DstPort tcp\<rparr>\<rparr>
      | None \<Rightarrow> mess)"

definition parseUDP :: "NfqueueMessage \<Rightarrow> NfqueueMessage" where
  "parseUDP mess =
     (case LayerTypeUDP (Packet mess) of
        Some udp \<Rightarrow>
          mess\<lparr>UDPLayer := Some udp,
               MsgTuple := (MsgTuple mess)\<lparr>ClientPort := udp_SrcPort udp,
                             ServerPort := udp_DstPort udp\<rparr>\<rparr>
      | None \<Rightarrow> mess)"

definition parseICMPv4 :: "NfqueueMessage \<Rightarrow> NfqueueMessage" where
  "parseICMPv4 mess =
     (case LayerTypeICMPv4 (Packet mess) of
        Some icmp \<Rightarrow>
          mess\<lparr>ICMPv4Layer := Some icmp,
               MsgTuple := (MsgTuple mess)\<lparr>ClientPort := icmp_Id icmp,
                             ServerPort := icmp_Id icmp\<rparr>\<rparr>
      | None \<Rightarrow> mess)"

definition parsePayload :: "NfqueueMessage \<Rightarrow> NfqueueMessage" where
  "parsePayload mess =
     (case ApplicationLayer (Packet mess) of
        Some payload \<Rightarrow> mess\<lparr>Payload := payload\<rparr>
      | None \<Rightarrow> mess)"

definition parseMessage :: "Packet \<Rightarrow> int \<Rightarrow> NfqueueMessage option" where
  "parseMessage packet packetLength =
     (case parseIP (zeroMessage\<lparr>Packet := packet, Length := packetLength\<rparr>) of
        None \<Rightarrow> None
      | Some mess \<Rightarrow> Some (parsePayload (parseICMPv4 (parseUDP (parseTCP mess)))))"

definition lookupSessionEntry ::
  "NfqueueMessage \<Rightarrow> 32 word \<Rightarrow> dispatch \<Rightarrow> SessionEntry option \<times> bool" where
  "lookupSessionEntry mess ctid st =
     (case findSessionEntry (Tuple_String (MsgTuple mess)) st of
        Some session \<Rightarrow> (Some session, True)
      | None \<Rightarrow>
         (case findSessionEntry (Tuple_StringReverse (MsgTuple mess)) st of
            Some session \<Rightarrow> (Some session, False)
          | None \<Rightarrow> (None, True)))"

definition createSessionEntry ::
  "NfqueueMessage \<Rightarrow> 32 word \<Rightarrow> nat \<Rightarrow> dispatch \<Rightarrow> SessionEntry \<times> dispatch" where
  "createSessionEntry mess ctid now st =
     (case nextSessionID st of (sid, st1) \<Rightarrow>
        let session = AttachNfqueueSubscriptions st1
              \<lparr>SessionID = sid, ConntrackID = ctid, CreationTime = now,
               LastActivityTime = now, PacketCount = 1,
               ByteCount = word_of_int (Length mess), EventCount = 1,
               ClientSideTuple = MsgTuple mess, ConntrackConfirmed = False,
               subscriptions = []\<rparr>
        in (session, insertSessionEntry (Tuple_String (MsgTuple mess)) session st1))"

text \<open>
  Lines 175-210 of \<open>nfqueueCallback\<close>: the session the packet belongs to.  The outcome
  is either the early return of a mid-session packet, or the session together with the
  key it is stored under (the pointer held in the local variable \<open>session\<close>), the
  message and the state.
\<close>

datatype resolution =
  Bypassed "int \<times> 32 word" dispatch
| Resolved string SessionEntry NfqueueMessage dispatch

definition resolveSession ::
  "32 word \<Rightarrow> NfqueueMessage \<Rightarrow> 32 word \<Rightarrow> nat \<Rightarrow> dispatch \<Rightarrow> resolution" where
  "resolveSession ctid mess0 pmark now st =
     (let newSession = (pmark AND 0x10000000 \<noteq> 0);
          forward = Tuple_String (MsgTuple mess0)
      in case lookupSessionEntry mess0 ctid st of (found, clientToServer) \<Rightarrow>
        let mess = mess0\<lparr>ClientToServer := clientToServer\<rparr> in
        (case found of
           None \<Rightarrow>
             if \<not> newSession
             then Bypassed (NfAccept, pmark)
                    (st\<lparr>dict := AddSessionEntry ctid ''bypass_packetd'' True (dict st)\<rparr>)
             else (case createSessionEntry mess ctid now st of
                     (session, st') \<Rightarrow> Resolved forward session mess st')
         | Some session \<Rightarrow>
             let stored = (if clientToServer then forward
                           else Tuple_StringReverse (MsgTuple mess0))
             in if newSession
                then if ConntrackConfirmed session
                     then Resolved stored session mess st
                     else (case createSessionEntry mess ctid now
                                  (removeSessionEntry forward st) of
                             (session', st') \<Rightarrow> Resolved forward session' mess st')
                else Resolved stored session mess st))"

text \<open>Lines 212-216: the accounting, through the pointer.\<close>

definition account :: "NfqueueMessage \<Rightarrow> nat \<Rightarrow> SessionEntry \<Rightarrow> SessionEntry" where
  "account mess now session =
     session\<lparr>LastActivityTime := now,
              PacketCount := PacketCount session + 1,
              ByteCount := ByteCount session + word_of_int (Length mess),
              EventCount := EventCount session + 1\<rparr>"

text \<open>
  \<open>nfqueueCallback\<close> (lines 112-219).  The clock is the argument \<open>now\<close>.  The result is
  the verdict and mark returned to the kernel with the state left behind, or the panic
  that aborts the process.
\<close>

definition nfqueueCallback ::
  "32 word \<Rightarrow> Packet \<Rightarrow> int \<Rightarrow> 32 word \<Rightarrow> nat \<Rightarrow> dispatch
     \<Rightarrow> fatal + ((int \<times> 32 word) \<times> dispatch)" where
  "nfqueueCallback ctid packet packetLength pmark now st =
     (case parseMessage packet packetLength of
        None \<Rightarrow> Inr ((NfAccept, pmark), st)
      | Some mess0 \<Rightarrow>
         (case resolveSession ctid mess0 pmark now st of
            Bypassed verdict st' \<Rightarrow> Inr (verdict, st')
          | Resolved stored session0 mess1 st1 \<Rightarrow>
              let newSession = (pmark AND 0x10000000 \<noteq> 0);
                  session = account mess1 now session0;
                  mess = mess1\<lparr>Session := Some (SessionFields.truncate session)\<rparr>
              in (case callSubscribers ctid session mess pmark newSession (dict st1) of
                    Inl e \<Rightarrow> Inl e
                  | Inr (verdict, session', d', called) \<Rightarrow>
                      Inr (verdict,
                           st1\<lparr>sessionTable := (sessionTable st1)(stored \<mapsto> session'),
                               dict := d',
                               nfqueueTrace := nfqueueTrace st1 @
                                 map (\<lambda>c. (fst c, snd c, SessionID session)) called\<rparr>))))"

section \<open>Notions used in the statements\<close>

text \<open>\<open>layers p n sublist\<close>: the subscribers that \<open>n\<close> turns of the loop start, from
  priority \<open>p\<close> on, in the order they are started.\<close>

fun layers :: "int \<Rightarrow> nat \<Rightarrow> subscriptions \<Rightarrow> subscriptions" where
  "layers p 0 sublist = []"
| "layers p (Suc n) sublist = layer p sublist @ layers (p + 1) n sublist"

text \<open>The priorities for which the loop comes to its end: \<open>0\<close> to \<open>99\<close>.\<close>

definition inRange :: "subscriptions \<Rightarrow> bool" where
  "inRange sublist = (\<forall>kv \<in> set sublist. 0 \<le> Priority (snd kv) \<and> Priority (snd kv) < 100)"

text \<open>The input mark with the \<open>PacketMark\<close> of every result or-ed in.\<close>

definition mergedMark :: "32 word \<Rightarrow> NfqueueResult list \<Rightarrow> 32 word" where
  "mergedMark pmark results = fold (\<lambda>result m. m OR PacketMark result) results pmark"

text \<open>The owners named by the results that ask for a release.\<close>

definition releasedOwners :: "NfqueueResult list \<Rightarrow> string list" where
  "releasedOwners results = map NfqueueResult.Owner (filter SessionRelease results)"

text \<open>One result for every subscriber of the snapshot taken by
  \<open>MirrorNfqueueSubscriptions\<close>, in the order of the snapshot.\<close>

definition snapshotResults ::
  "32 word \<Rightarrow> SessionEntry \<Rightarrow> NfqueueMessage \<Rightarrow> bool \<Rightarrow> NfqueueResult list" where
  "snapshotResults ctid session mess newSession =
     map (collectResult mess ctid newSession) (MirrorNfqueueSubscriptions session)"

text \<open>The session and the dictionary once every release among the results is done.\<close>

definition afterFanout :: "NfqueueResult list \<Rightarrow> SessionEntry \<Rightarrow> SessionEntry" where
  "afterFanout results session =
     session\<lparr>subscriptions :=
       filter (\<lambda>kv. fst kv \<notin> set (releasedOwners results)) (subscriptions session)\<rparr>"

definition bypassAfter :: "NfqueueResult list \<Rightarrow> SessionEntry \<Rightarrow> dictionary \<Rightarrow> dictionary" where
  "bypassAfter results session d =
     (if subscriptions session \<noteq> [] \<and> subscriptions (afterFanout results session) = []
      then d((ConntrackID session, ''bypass_packetd'') \<mapsto> True) else d)"

section \<open>Concrete packets, handlers and states\<close>

text \<open>A TCP segment from 10.0.0.1:50000 to 93.184.216.34:443 and its reply.\<close>

definition synPacket :: Packet where
  "synPacket =
     \<lparr>LayerTypeIPv4 = Some \<lparr>ip4_Protocol = 6, ip4_SrcIP = [10, 0, 0, 1],
                              ip4_DstIP = [93, 184, 216, 34]\<rparr>,
      LayerTypeIPv6 = None,
      LayerTypeTCP = Some \<lparr>tcp_SrcPort = 50000, tcp_DstPort = 443\<rparr>,
      LayerTypeUDP = None, LayerTypeICMPv4 = None, ApplicationLayer = None\<rparr>"

definition replyPacket :: Packet where
  "replyPacket =
     \<lparr>LayerTypeIPv4 = Some \<lparr>ip4_Protocol = 6, ip4_SrcIP = [93, 184, 216, 34],
                              ip4_DstIP = [10, 0, 0, 1]\<rparr>,
      LayerTypeIPv6 = None,
      LayerTypeTCP = Some \<lparr>tcp_SrcPort = 443, tcp_DstPort = 50000\<rparr>,
      LayerTypeUDP = None, LayerTypeICMPv4 = None, ApplicationLayer = None\<rparr>"

definition emptyDispatch :: dispatch where
  "emptyDispatch =
     \<lparr>nfqueueList = [], sessionTable = Map.empty, sessionIndex = 0x5BD9A1000000,
      dict = Map.empty, nfqueueTrace = []\<rparr>"

text \<open>The session as the handlers of a packet see it, after the accounting, the message
  they receive, and the results they give for the snapshot of that session.\<close>

definition fanoutMessage :: "NfqueueMessage \<Rightarrow> nat \<Rightarrow> SessionEntry \<Rightarrow> NfqueueMessage" where
  "fanoutMessage mess1 now session0 =
     mess1\<lparr>Session := Some (SessionFields.truncate (account mess1 now session0))\<rparr>"

definition fanoutResults ::
  "32 word \<Rightarrow> 32 word \<Rightarrow> nat \<Rightarrow> SessionEntry \<Rightarrow> NfqueueMessage \<Rightarrow> NfqueueResult list" where
  "fanoutResults ctid pmark now session0 mess1 =
     snapshotResults ctid (account mess1 now session0) (fanoutMessage mess1 now session0)
       (pmark AND 0x10000000 \<noteq> 0)"

text \<open>Handlers: two that set a mark bit, one (subscribed as \<open>A\<close>) that asks for the
  release of owner \<open>B\<close>, and one that does not answer within the guard time.\<close>

definition markA :: NfqueueHandlerFunction where
  "markA mess ctid newSession =
     Some \<lparr>NfqueueResult.Owner = ''A'', PacketMark = 1, SessionRelease = False\<rparr>"

definition markB :: NfqueueHandlerFunction where
  "markB mess ctid newSession =
     Some \<lparr>NfqueueResult.Owner = ''B'', PacketMark = 2, SessionRelease = False\<rparr>"


definition sleeper :: NfqueueHandlerFunction where
  "sleeper mess ctid newSession = None"

text \<open>The registry entry that \<open>InsertNfqueueSubscription\<close> stores.\<close>

definition holder :: "string \<Rightarrow> int \<Rightarrow> NfqueueHandlerFunction \<Rightarrow> string \<times> SubscriptionHolder" where
  "holder owner priority function =
     (owner, \<lparr>SubscriptionHolder.Owner = owner, Priority = priority, NfqueueFunc = function\<rparr>)"

text \<open>The message that \<open>nfqueueCallback\<close> builds for \<open>synPacket\<close>, before the lookup.\<close>

definition synMessage :: "int \<Rightarrow> NfqueueMessage" where
  "synMessage len =
     \<lparr>Session = None,
      MsgTuple = \<lparr>Protocol = 6, ClientAddress = [10, 0, 0, 1], ClientPort = 50000,
                  ServerAddress = [93, 184, 216, 34], ServerPort = 443\<rparr>,
      Packet = synPacket, Length = len, ClientToServer = False,
      IP4Layer = LayerTypeIPv4 synPacket, IP6Layer = None,
      TCPLayer = LayerTypeTCP synPacket, UDPLayer = None, ICMPv4Layer = None,
      Payload = []\<rparr>"

text \<open>The forward and the reverse key of \<open>synPacket\<close>, a session record for its tuple,
  and the state of scenario 1: plugin A at priority 0, plugin B at priority 1.\<close>

definition synKey :: string where
  "synKey = ''6|10.0.0.1:50000-93.184.216.34:443''"

definition replyKey :: string where
  "replyKey = ''6|93.184.216.34:443-10.0.0.1:50000''"

definition exampleSession ::
  "64 word \<Rightarrow> 32 word \<Rightarrow> 64 word \<Rightarrow> 64 word \<Rightarrow> bool \<Rightarrow> subscriptions \<Rightarrow> SessionEntry" where
  "exampleSession sid ctid packets bytes confirmed subs =
     \<lparr>SessionID = sid, ConntrackID = ctid, CreationTime = 5, LastActivityTime = 5,
      PacketCount = packets, ByteCount = bytes, EventCount = packets,
      ClientSideTuple = MsgTuple (synMessage 60), ConntrackConfirmed = confirmed,
      subscriptions = subs\<rparr>"

definition twoPlugins :: dispatch where
  "twoPlugins = emptyDispatch\<lparr>nfqueueList := [holder ''A'' 0 markA, holder ''B'' 1 markB]\<rparr>"

text \<open>The record that \<open>createSessionEntry\<close> allocates and fills in.\<close>

definition createdSession :: "NfqueueMessage \<Rightarrow> 32 word \<Rightarrow> nat \<Rightarrow> dispatch \<Rightarrow> SessionEntry" where
  "createdSession mess ctid now st =
     \<lparr>SessionID = sessionIndex st, ConntrackID = ctid, CreationTime = now,
      LastActivityTime = now, PacketCount = 1, ByteCount = word_of_int (Length mess),
      EventCount = 1, ClientSideTuple = MsgTuple mess, ConntrackConfirmed = False,
      subscriptions = copySubscriptions (nfqueueList st)\<rparr>"



text \<open>The message for \<open>replyPacket\<close>, a session record for the reply's tuple, and a
  state in which the flow was opened from the other side: an unconfirmed session with
  conntrack id 100 is stored under the forward key of the reply, which is the reverse key
  of \<open>synPacket\<close>.\<close>

definition replyMessage :: "int \<Rightarrow> NfqueueMessage" where
  "replyMessage len =
     \<lparr>Session = None,
      MsgTuple = \<lparr>Protocol = 6, ClientAddress = [93, 184, 216, 34], ClientPort = 443,
                  ServerAddress = [10, 0, 0, 1], ServerPort = 50000\<rparr>,
      Packet = replyPacket, Length = len, ClientToServer = False,
      IP4Layer = LayerTypeIPv4 replyPacket, IP6Layer = None,
      TCPLayer = LayerTypeTCP replyPacket, UDPLayer = None, ICMPv4Layer = None,
      Payload = []\<rparr>"

definition reverseSession ::
  "64 word \<Rightarrow> 32 word \<Rightarrow> 64 word \<Rightarrow> 64 word \<Rightarrow> bool \<Rightarrow> subscriptions \<Rightarrow> SessionEntry" where
  "reverseSession sid ctid packets bytes confirmed subs =
     (exampleSession sid ctid packets bytes confirmed subs)
       \<lparr>ClientSideTuple := MsgTuple (replyMessage 60)\<rparr>"

definition staleFlow :: dispatch where
  "staleFlow =
     emptyDispatch\<lparr>sessionIndex := 0x5BD9A1000001,
       sessionTable := [replyKey \<mapsto> reverseSession 0x5BD9A1000000 100 2 120 False []]\<rparr>"

text \<open>A handler whose result does not depend on what it could read through the session
  pointer nor on the direction flag of the message: only on the packet, its tuple and
  layers, the conntrack id and the new-session flag.\<close>

definition sessionBlind :: "NfqueueHandlerFunction \<Rightarrow> bool" where
  "sessionBlind h \<longleftrightarrow>
     (\<forall>m c n. h m c n = h (m\<lparr>Session := None, ClientToServer := False\<rparr>) c n)"

text \<open>The first invocation is quiet: if the packet reaches the fan-out, every handler of
  the snapshot is blind to the session and no result collected asks for a release (in
  particular no handler runs into the guard timer).\<close>

definition quietFanout :: "32 word \<Rightarrow> Packet \<Rightarrow> int \<Rightarrow> 32 word \<Rightarrow> nat \<Rightarrow> dispatch \<Rightarrow> bool" where
  "quietFanout ctid packet packetLength pmark now st =
     (case parseMessage packet packetLength of
        None \<Rightarrow> True
      | Some mess0 \<Rightarrow>
         (case resolveSession ctid mess0 pmark now st of
            Bypassed verdict st' \<Rightarrow> True
          | Resolved stored session0 mess1 st' \<Rightarrow>
              (\<forall>kv \<in> set (MirrorNfqueueSubscriptions session0).
                 sessionBlind (NfqueueFunc (snd kv))) \<and>
              (\<forall>r \<in> set (fanoutResults ctid pmark now session0 mess1).
                 \<not> SessionRelease r)))"

text \<open>A handler subscribed as \<open>A\<close> that sets a mark bit on every packet and releases the
  session on the first packet that does not carry the new-session flag; the state after
  the first packet of a flow with this plugin registered; and the state after the next
  packet of that flow.\<close>

definition releaseLater :: NfqueueHandlerFunction where
  "releaseLater mess ctid newSession =
     Some \<lparr>NfqueueResult.Owner = ''A'', PacketMark = 1, SessionRelease = \<not> newSession\<rparr>"

definition openFlow :: dispatch where
  "openFlow =
     emptyDispatch\<lparr>nfqueueList := [holder ''A'' 0 releaseLater],
       sessionIndex := 0x5BD9A1000001,
       sessionTable := [synKey \<mapsto> exampleSession 0x5BD9A1000000 100 2 120 False
                          [holder ''A'' 0 releaseLater]],
       nfqueueTrace := [(''A'', 0, 0x5BD9A1000000)]\<rparr>"

definition releasedFlow :: dispatch where
  "releasedFlow =
     openFlow\<lparr>sessionTable := [synKey \<mapsto> (exampleSession 0x5BD9A1000000 100 3 180 False [])
                                           \<lparr>LastActivityTime := 6\<rparr>],
       dict := [(100, ''bypass_packetd'') \<mapsto> True],
       nfqueueTrace := [(''A'', 0, 0x5BD9A1000000), (''A'', 0, 0x5BD9A1000000)]\<rparr>"

text \<open>The keys under which a packet started handlers: the lines it added to the
  trace, when it took the state from \<open>st\<close> to \<open>st'\<close>.\<close>

definition startedBy :: "dispatch \<Rightarrow> dispatch \<Rightarrow> string list" where
  "startedBy st st' = map fst (drop (length (nfqueueTrace st)) (nfqueueTrace st'))"

text \<open>A packet is on the session held under a key of the table when
  \<open>resolveSession\<close> gives that key without allocating a session (the counter
  \<open>sessionIndex\<close> stays); it replaces the session under the key when it gives the key
  for a session it has just allocated.\<close>

definition onSession ::
  "string \<Rightarrow> 32 word \<Rightarrow> Packet \<Rightarrow> int \<Rightarrow> 32 word \<Rightarrow> nat \<Rightarrow> dispatch \<Rightarrow> bool" where
  "onSession stored ctid packet packetLength pmark now st =
     (case parseMessage packet packetLength of
        None \<Rightarrow> False
      | Some mess0 \<Rightarrow>
         (case resolveSession ctid mess0 pmark now st of
            Bypassed verdict st' \<Rightarrow> False
          | Resolved key session mess st1 \<Rightarrow>
              key = stored \<and> sessionIndex st1 = sessionIndex st))"

definition replacesSession ::
  "string \<Rightarrow> 32 word \<Rightarrow> Packet \<Rightarrow> int \<Rightarrow> 32 word \<Rightarrow> nat \<Rightarrow> dispatch \<Rightarrow> bool" where
  "replacesSession stored ctid packet packetLength pmark now st =
     (case parseMessage packet packetLength of
        None \<Rightarrow> False
      | Some mess0 \<Rightarrow>
         (case resolveSession ctid mess0 pmark now st of
            Bypassed verdict st' \<Rightarrow> False
          | Resolved key session mess st1 \<Rightarrow>
              key = stored \<and> sessionIndex st1 \<noteq> sessionIndex st))"

text \<open>The states that follow a state while the session under a key stays the same
  object: any number of packets for which \<open>nfqueueCallback\<close> returns and that do not
  replace that session, and of registrations.\<close>

inductive later :: "string \<Rightarrow> dispatch \<Rightarrow> dispatch \<Rightarrow> bool" for stored :: string and st :: dispatch where
  same: "later stored st st"
| packet: "later stored st st1 \<Longrightarrow>
     nfqueueCallback ctid packet packetLength pmark now st1 = Inr (verdict, st2) \<Longrightarrow>
     \<not> replacesSession stored ctid packet packetLength pmark now st1 \<Longrightarrow>
     later stored st st2"
| registration: "later stored st st1 \<Longrightarrow>
     later stored st (InsertNfqueueSubscription owner priority handler st1)"

text \<open>Scenario 1 with plugin \<open>B\<close> registered at priority 100, the upper end of the
  range of priorities, instead of 1.\<close>

definition lastPriority :: dispatch where
  "lastPriority = emptyDispatch\<lparr>nfqueueList := [holder ''A'' 0 markA, holder ''B'' 100 markB]\<rparr>"

text \<open>A registry with a plugin \<open>S\<close> at priority 0 whose handler does not answer within
  the guard time and plugin \<open>A\<close> at priority 1; the state after the first packet of a
  flow (conntrack id 7), and the states after the second and the third packet of that
  flow.\<close>

definition sleeperPlugins :: dispatch where
  "sleeperPlugins =
     emptyDispatch\<lparr>nfqueueList := [holder ''S'' 0 sleeper, holder ''A'' 1 markA]\<rparr>"

definition timedOutFlow :: dispatch where
  "timedOutFlow =
     sleeperPlugins\<lparr>sessionIndex := 0x5BD9A1000001,
       sessionTable := [synKey \<mapsto> exampleSession 0x5BD9A1000000 7 2 120 False
                          [holder ''A'' 1 markA]],
       nfqueueTrace := [(''S'', 0, 0x5BD9A1000000), (''A'', 1, 0x5BD9A1000000)]\<rparr>"

definition timedOutFlow2 :: dispatch where
  "timedOutFlow2 =
     timedOutFlow\<lparr>sessionTable := [synKey \<mapsto>
         (exampleSession 0x5BD9A1000000 7 3 180 False [holder ''A'' 1 markA])
           \<lparr>LastActivityTime := 6\<rparr>],
       nfqueueTrace := [(''S'', 0, 0x5BD9A1000000), (''A'', 1, 0x5BD9A1000000),
                        (''A'', 1, 0x5BD9A1000000)]\<rparr>"

definition timedOutFlow3 :: dispatch where
  "timedOutFlow3 =
     timedOutFlow2\<lparr>sessionTable := [synKey \<mapsto>
         (exampleSession 0x5BD9A1000000 7 4 240 False [holder ''A'' 1 markA])
           \<lparr>LastActivityTime := 7\<rparr>],
       nfqueueTrace := [(''S'', 0, 0x5BD9A1000000), (''A'', 1, 0x5BD9A1000000),
                        (''A'', 1, 0x5BD9A1000000), (''A'', 1, 0x5BD9A1000000)]\<rparr>"

section \<open>The loop of the fan-out\<close>

lemma mset_layers:
  "mset (layers p n sl) =
     mset (filter (\<lambda>kv. p \<le> Priority (snd kv) \<and> Priority (snd kv) < p + int n) sl)"
proof (induction n arbitrary: p)
  case 0 show ?case by simp
next
  case (Suc n)
  have "mset (layers p (Suc n) sl) =
        mset (filter (\<lambda>kv. Priority (snd kv) = p) sl) +
        mset (filter (\<lambda>kv. p + 1 \<le> Priority (snd kv) \<and> Priority (snd kv) < p + 1 + int n) sl)"
    using Suc.IH [of "p + 1"] by (simp add: layer_def)
  also have "\<dots> = mset (filter (\<lambda>kv. p \<le> Priority (snd kv) \<and> Priority (snd kv) < p + int (Suc n)) sl)"
    by (induction sl) auto
  finally show ?case .
qed

lemma loop_Inr:
  "callSubscribers_loop sl tot mess ctid ns sc p acc cl = Inr (acc', cl') \<Longrightarrow>
   \<exists>n. tot = sc + length (layers p n sl) \<and>
       acc' = fold mergeResult (map (collectResult mess ctid ns) (layers p n sl)) acc \<and>
       cl' = cl @ map (\<lambda>kv. (fst kv, Priority (snd kv))) (layers p n sl)"
proof (induction sl tot mess ctid ns sc p acc cl rule: callSubscribers_loop.induct)
  case (1 sl tot mess ctid ns sc p acc cl)
  show ?case
  proof (cases "sc = tot")
    case True
    with "1.prems" have "acc' = acc" "cl' = cl"
      by (simp_all add: callSubscribers_loop.simps)
    with True show ?thesis by (intro exI [of _ 0]) simp
  next
    case False
    with "1.prems" have le: "\<not> p + 1 > 100"
      by (auto simp: callSubscribers_loop.simps Let_def split: if_splits)
    with False "1.prems" have rec:
      "callSubscribers_loop sl tot mess ctid ns (sc + length (layer p sl)) (p + 1)
         (fold mergeResult (map (collectResult mess ctid ns) (layer p sl)) acc)
         (cl @ map (\<lambda>kv. (fst kv, p)) (layer p sl)) = Inr (acc', cl')"
      by (simp add: callSubscribers_loop.simps Let_def)
    from "1.IH" [OF False refl refl refl refl refl le rec]
    obtain n where n: "tot = sc + length (layer p sl) + length (layers (p + 1) n sl)"
      "acc' = fold mergeResult (map (collectResult mess ctid ns) (layers (p + 1) n sl))
                (fold mergeResult (map (collectResult mess ctid ns) (layer p sl)) acc)"
      "cl' = (cl @ map (\<lambda>kv. (fst kv, p)) (layer p sl)) @
               map (\<lambda>kv. (fst kv, Priority (snd kv))) (layers (p + 1) n sl)"
      by blast
    have same: "map (\<lambda>kv. (fst kv, p)) (layer p sl) = map (\<lambda>kv. (fst kv, Priority (snd kv))) (layer p sl)"
      by (simp add: layer_def)
    show ?thesis
      using n by (intro exI [of _ "Suc n"]) (simp add: same)
  qed
qed

lemma filter_all_length: "length (filter P xs) = length xs \<Longrightarrow> filter P xs = xs"
  by (metis filter_id_conv length_filter_less linorder_neq_iff)

lemma layers_whole:
  assumes "length sl = length (layers 0 n sl)"
  shows "mset (layers 0 n sl) = mset sl"
proof -
  let ?P = "\<lambda>kv. 0 \<le> Priority (snd kv) \<and> Priority (snd kv) < 0 + int n"
  have "length (layers 0 n sl) = length (filter ?P sl)"
    by (rule mset_eq_length) (rule mset_layers)
  then have "length (filter ?P sl) = length sl" using assms by simp
  then have "filter ?P sl = sl" by (rule filter_all_length)
  then show ?thesis by (simp only: mset_layers)
qed

lemma length_split_layer:
  "p < 100 \<Longrightarrow> length (filter (\<lambda>kv. p \<le> Priority (snd kv) \<and> Priority (snd kv) < 100) sl) =
     length (layer p sl) + length (filter (\<lambda>kv. p + 1 \<le> Priority (snd kv) \<and> Priority (snd kv) < 100) sl)"
  by (induction sl) (auto simp: layer_def)

lemma loop_total:
  "tot = sc + length (filter (\<lambda>kv. p \<le> Priority (snd kv) \<and> Priority (snd kv) < 100) sl) \<Longrightarrow>
   \<exists>r. callSubscribers_loop sl tot mess ctid ns sc p acc cl = Inr r"
proof (induction sl tot mess ctid ns sc p acc cl rule: callSubscribers_loop.induct)
  case (1 sl tot mess ctid ns sc p acc cl)
  show ?case
  proof (cases "sc = tot")
    case True
    then show ?thesis
      by (intro exI [of _ "(acc, cl)"]) (simp add: callSubscribers_loop.simps)
  next
    case False
    with "1.prems" have "filter (\<lambda>kv. p \<le> Priority (snd kv) \<and> Priority (snd kv) < 100) sl \<noteq> []"
      by auto
    then have "\<exists>kv \<in> set sl. p \<le> Priority (snd kv) \<and> Priority (snd kv) < 100"
      by (auto simp: filter_empty_conv)
    then have lt: "p < 100" by auto
    then have le: "\<not> p + 1 > 100" by simp
    have "tot = sc + length (layer p sl) +
            length (filter (\<lambda>kv. p + 1 \<le> Priority (snd kv) \<and> Priority (snd kv) < 100) sl)"
      using "1.prems" length_split_layer [OF lt, of sl] by simp
    from "1.IH" [OF False refl refl refl refl refl le this]
    show ?thesis using False le by (simp add: callSubscribers_loop.simps Let_def)
  qed
qed

lemma loop_panic:
  "sc + length (filter (\<lambda>kv. p \<le> Priority (snd kv) \<and> Priority (snd kv) < 100) sl) < tot \<Longrightarrow>
   callSubscribers_loop sl tot mess ctid ns sc p acc cl = Inl ConstraintFailed"
proof (induction sl tot mess ctid ns sc p acc cl rule: callSubscribers_loop.induct)
  case (1 sl tot mess ctid ns sc p acc cl)
  from "1.prems" have ne: "sc \<noteq> tot" by simp
  show ?case
  proof (cases "p + 1 > 100")
    case True
    with ne show ?thesis by (simp add: callSubscribers_loop.simps Let_def)
  next
    case False
    then have lt: "p < 100" by simp
    have "sc + length (layer p sl) +
            length (filter (\<lambda>kv. p + 1 \<le> Priority (snd kv) \<and> Priority (snd kv) < 100) sl) < tot"
      using "1.prems" length_split_layer [OF lt, of sl] by simp
    from "1.IH" [OF ne refl refl refl refl refl False this]
    show ?thesis using ne False by (simp add: callSubscribers_loop.simps Let_def)
  qed
qed

lemma inRange_filter:
  "inRange sl \<longleftrightarrow> length (filter (\<lambda>kv. 0 \<le> Priority (snd kv) \<and> Priority (snd kv) < 100) sl) = length sl"
proof
  assume "inRange sl"
  then have "filter (\<lambda>kv. 0 \<le> Priority (snd kv) \<and> Priority (snd kv) < 100) sl = sl"
    unfolding inRange_def by (simp add: filter_id_conv)
  then show "length (filter (\<lambda>kv. 0 \<le> Priority (snd kv) \<and> Priority (snd kv) < 100) sl) = length sl"
    by simp
next
  assume "length (filter (\<lambda>kv. 0 \<le> Priority (snd kv) \<and> Priority (snd kv) < 100) sl) = length sl"
  then have "filter (\<lambda>kv. 0 \<le> Priority (snd kv) \<and> Priority (snd kv) < 100) sl = sl"
    by (rule filter_all_length)
  then show "inRange sl"
    unfolding inRange_def by (simp add: filter_id_conv)
qed

lemma not_inRange_filter:
  assumes "\<not> inRange sl"
  shows "length (filter (\<lambda>kv. 0 \<le> Priority (snd kv) \<and> Priority (snd kv) < 100) sl) < length sl"
proof -
  have "length (filter (\<lambda>kv. 0 \<le> Priority (snd kv) \<and> Priority (snd kv) < 100) sl) \<le> length sl"
    by (rule length_filter_le)
  moreover have "length (filter (\<lambda>kv. 0 \<le> Priority (snd kv) \<and> Priority (snd kv) < 100) sl) \<noteq> length sl"
    using assms inRange_filter [of sl] by simp
  ultimately show ?thesis by linarith
qed

section \<open>Merging the results\<close>

lemma delete_filter: "AList.delete k al = filter (\<lambda>kv. fst kv \<noteq> k) al"
  by (induction al) (auto simp: AList.delete_eq)

lemma ReleaseSession_fst:
  "fst (ReleaseSession s owner d) = s\<lparr>subscriptions := AList.delete owner (subscriptions s)\<rparr>"
  by (simp add: ReleaseSession_def Let_def)

lemma ReleaseSession_snd:
  "snd (ReleaseSession s owner d) =
     (if subscriptions s \<noteq> [] \<and> AList.delete owner (subscriptions s) = []
      then d((ConntrackID s, ''bypass_packetd'') \<mapsto> True) else d)"
  by (simp add: ReleaseSession_def Let_def AddSessionEntry_def)

lemma mergeResult_eq:
  "mergeResult r (pm, s, d) =
     (pm OR PacketMark r,
      if SessionRelease r then s\<lparr>subscriptions := AList.delete (NfqueueResult.Owner r) (subscriptions s)\<rparr> else s,
      if SessionRelease r \<and> subscriptions s \<noteq> [] \<and> AList.delete (NfqueueResult.Owner r) (subscriptions s) = []
      then d((ConntrackID s, ''bypass_packetd'') \<mapsto> True) else d)"
proof -
  have "ReleaseSession s (NfqueueResult.Owner r) d =
          (fst (ReleaseSession s (NfqueueResult.Owner r) d), snd (ReleaseSession s (NfqueueResult.Owner r) d))"
    by simp
  then show ?thesis
    unfolding mergeResult_def by (simp add: ReleaseSession_fst ReleaseSession_snd del: prod.collapse)
qed

lemma fold_mergeResult:
  "fold mergeResult rs (pm, s, d) =
     (mergedMark pm rs,
      s\<lparr>subscriptions := filter (\<lambda>kv. fst kv \<notin> set (releasedOwners rs)) (subscriptions s)\<rparr>,
      if subscriptions s \<noteq> [] \<and> filter (\<lambda>kv. fst kv \<notin> set (releasedOwners rs)) (subscriptions s) = []
      then d((ConntrackID s, ''bypass_packetd'') \<mapsto> True) else d)"
proof (induction rs arbitrary: pm s d)
  case Nil
  show ?case by (simp add: mergedMark_def releasedOwners_def)
next
  case (Cons r rs)
  show ?case
  proof (cases "SessionRelease r")
    case False
    then show ?thesis
      by (simp add: mergeResult_eq Cons.IH mergedMark_def releasedOwners_def)
  next
    case True
    let ?s1 = "s\<lparr>subscriptions := AList.delete (NfqueueResult.Owner r) (subscriptions s)\<rparr>"
    have f: "filter (\<lambda>kv. fst kv \<notin> set (releasedOwners rs)) (subscriptions ?s1) =
             filter (\<lambda>kv. fst kv \<notin> set (releasedOwners (r # rs))) (subscriptions s)"
      using True by (auto simp: delete_filter releasedOwners_def intro: filter_cong)
    have e: "AList.delete (NfqueueResult.Owner r) (subscriptions s) = [] \<Longrightarrow>
             filter (\<lambda>kv. fst kv \<notin> set (releasedOwners (r # rs))) (subscriptions s) = []"
    proof -
      assume "AList.delete (NfqueueResult.Owner r) (subscriptions s) = []"
      then have "filter (\<lambda>kv. fst kv \<notin> set (releasedOwners rs)) (subscriptions ?s1) = []"
        by simp
      then show ?thesis using f by simp
    qed
    show ?thesis
      using True f e
      by (auto simp: mergeResult_eq Cons.IH mergedMark_def)
  qed
qed

lemma mergedMark_mset:
  assumes "mset rs = mset rs'"
  shows "mergedMark pm rs = mergedMark pm rs'"
proof -
  have "fold (\<lambda>result m. m OR PacketMark result) rs = fold (\<lambda>result m. m OR PacketMark result) rs'"
    by (rule fold_multiset_equiv) (simp_all add: assms fun_eq_iff or.assoc or.commute or.left_commute)
  then show ?thesis by (simp add: mergedMark_def)
qed

lemma releasedOwners_set:
  "set rs = set rs' \<Longrightarrow> set (releasedOwners rs) = set (releasedOwners rs')"
  by (simp add: releasedOwners_def)

section \<open>What \<open>callSubscribers\<close> computes\<close>

text \<open>When the fan-out returns, it returns \<open>NfAccept\<close> with the merged mark, the
  session without the released owners and the dictionary with the bypass entry if the
  releases emptied the map; every subscriber of the snapshot was started once.  It
  returns exactly when every priority of the snapshot is between 0 and 99.\<close>

lemma callSubscribers_Inr:
  assumes "callSubscribers ctid s mess pm ns d = Inr (r, s', d', called)"
  shows "r = (NfAccept, mergedMark pm (snapshotResults ctid s mess ns))"
    and "s' = afterFanout (snapshotResults ctid s mess ns) s"
    and "d' = bypassAfter (snapshotResults ctid s mess ns) s d"
    and "mset called = mset (map (\<lambda>kv. (fst kv, Priority (snd kv))) (MirrorNfqueueSubscriptions s))"
proof -
  let ?sl = "MirrorNfqueueSubscriptions s"
  from assms obtain acc' where
    loop: "callSubscribers_loop ?sl (length ?sl) mess ctid ns 0 0 (pm, s, d) [] = Inr (acc', called)"
    and out: "acc' = (snd r, s', d')" "fst r = NfAccept"
    by (auto simp: callSubscribers_def Let_def split: sum.splits prod.splits)
  from loop_Inr [OF loop] obtain n where
    n: "length ?sl = length (layers 0 n ?sl)"
       "acc' = fold mergeResult (map (collectResult mess ctid ns) (layers 0 n ?sl)) (pm, s, d)"
       "called = map (\<lambda>kv. (fst kv, Priority (snd kv))) (layers 0 n ?sl)"
    by auto
  have perm: "mset (layers 0 n ?sl) = mset ?sl"
    using n(1) by (rule layers_whole)
  then have pr: "mset (map (collectResult mess ctid ns) (layers 0 n ?sl)) = mset (snapshotResults ctid s mess ns)"
    by (simp add: snapshotResults_def)
  then have ps: "set (releasedOwners (map (collectResult mess ctid ns) (layers 0 n ?sl))) =
                 set (releasedOwners (snapshotResults ctid s mess ns))"
    by (intro releasedOwners_set mset_eq_setD)
  from n(2) out(1) have
    m: "snd r = mergedMark pm (map (collectResult mess ctid ns) (layers 0 n ?sl))"
    and s: "s' = afterFanout (map (collectResult mess ctid ns) (layers 0 n ?sl)) s"
    and d: "d' = bypassAfter (map (collectResult mess ctid ns) (layers 0 n ?sl)) s d"
    by (simp_all add: fold_mergeResult afterFanout_def bypassAfter_def)
  show "r = (NfAccept, mergedMark pm (snapshotResults ctid s mess ns))"
    using m out(2) mergedMark_mset [OF pr] by (cases r) simp
  show "s' = afterFanout (snapshotResults ctid s mess ns) s"
    using s ps by (simp add: afterFanout_def)
  show "d' = bypassAfter (snapshotResults ctid s mess ns) s d"
    using d ps by (simp add: bypassAfter_def afterFanout_def)
  show "mset called = mset (map (\<lambda>kv. (fst kv, Priority (snd kv))) ?sl)"
    using n(3) perm by (metis mset_map)
qed

lemma callSubscribers_total:
  assumes "inRange (MirrorNfqueueSubscriptions s)"
  shows "\<exists>r. callSubscribers ctid s mess pm ns d = Inr r"
proof -
  let ?sl = "MirrorNfqueueSubscriptions s"
  have "length ?sl = 0 + length (filter (\<lambda>kv. 0 \<le> Priority (snd kv) \<and> Priority (snd kv) < 100) ?sl)"
    using assms inRange_filter [of ?sl] by simp
  from loop_total [OF this, of mess ctid ns "(pm, s, d)" "[]"]
  show ?thesis
    by (auto simp: callSubscribers_def Let_def)
qed

lemma callSubscribers_panic:
  assumes "\<not> inRange (MirrorNfqueueSubscriptions s)"
  shows "callSubscribers ctid s mess pm ns d = Inl ConstraintFailed"
proof -
  let ?sl = "MirrorNfqueueSubscriptions s"
  have "0 + length (filter (\<lambda>kv. 0 \<le> Priority (snd kv) \<and> Priority (snd kv) < 100) ?sl) < length ?sl"
    using not_inRange_filter [OF assms] by simp
  from loop_panic [OF this, of mess ctid ns "(pm, s, d)" "[]"]
  show ?thesis
    by (simp add: callSubscribers_def Let_def)
qed

section \<open>Packets in the middle of an unknown session\<close>

lemma synPacket_parse:
  "\<exists>mess. parseMessage synPacket len = Some mess \<and>
     Tuple_String (MsgTuple mess) = ''6|10.0.0.1:50000-93.184.216.34:443'' \<and>
     Tuple_StringReverse (MsgTuple mess) = ''6|93.184.216.34:443-10.0.0.1:50000''"
  by (simp add: parseMessage_def parseIP_def parseTCP_def parseUDP_def parseICMPv4_def
      parsePayload_def zeroMessage_def synPacket_def dupIP_def Tuple_String_def
      Tuple_StringReverse_def IP_String_def decimal.simps)

text \<open>
  C6.  An IP packet whose forward and reverse tuples are both absent from the session
  table and whose mark has bit \<open>0x10000000\<close> clear: \<open>nfqueueCallback\<close> sets the
  dictionary entry \<open>(ctid, "bypass_packetd")\<close> to true and returns \<open>NfAccept\<close> with the
  input mark; nothing else of the state changes, so no session is created and the
  session table is as before.
\<close>

theorem mid_session_packet_bypassed:
  assumes "parseMessage packet packetLength = Some mess"
    and "findSessionEntry (Tuple_String (MsgTuple mess)) st = None"
    and "findSessionEntry (Tuple_StringReverse (MsgTuple mess)) st = None"
    and "pmark AND 0x10000000 = 0"
  shows "nfqueueCallback ctid packet packetLength pmark now st =
           Inr ((NfAccept, pmark),
                st\<lparr>dict := (dict st)((ctid, ''bypass_packetd'') \<mapsto> True)\<rparr>)"
  using assms
  by (simp add: nfqueueCallback_def resolveSession_def lookupSessionEntry_def
      AddSessionEntry_def Let_def)

theorem mid_session_packet_bypassed_witness:
  "nfqueueCallback 7 synPacket 60 0 1 emptyDispatch =
     Inr ((NfAccept, 0), emptyDispatch\<lparr>dict := [(7, ''bypass_packetd'') \<mapsto> True]\<rparr>)"
proof -
  obtain mess where m: "parseMessage synPacket 60 = Some mess"
    using synPacket_parse [of 60] by blast
  have t: "findSessionEntry (Tuple_String (MsgTuple mess)) emptyDispatch = None"
          "findSessionEntry (Tuple_StringReverse (MsgTuple mess)) emptyDispatch = None"
    by (simp_all add: findSessionEntry_def emptyDispatch_def)
  have b: "(0 :: 32 word) AND 0x10000000 = 0" by simp
  show ?thesis
    using mid_session_packet_bypassed [OF m t b, of 7 1]
    by (simp add: emptyDispatch_def)
qed

section \<open>Copying a subscription map\<close>

lemma update_fresh: "k \<notin> fst ` set al \<Longrightarrow> AList.update k v al = al @ [(k, v)]"
  by (induction al) auto

lemma fold_update_append:
  "distinct (map fst (acc @ m)) \<Longrightarrow>
   fold (\<lambda>kv copy. AList.update (fst kv) (snd kv) copy) m acc = acc @ m"
proof (induction m arbitrary: acc)
  case Nil
  show ?case by simp
next
  case (Cons x m)
  have fresh: "fst x \<notin> fst ` set acc" using Cons.prems by auto
  have "distinct (map fst ((acc @ [x]) @ m))" using Cons.prems by simp
  from Cons.IH [OF this] show ?case
    by (simp add: update_fresh [OF fresh])
qed

lemma copySubscriptions_distinct_id:
  "distinct (map fst m) \<Longrightarrow> copySubscriptions m = m"
  using fold_update_append [of "[]" m] by (simp add: copySubscriptions_def)

lemma fold_update_distinct:
  "distinct (map fst acc) \<Longrightarrow>
   distinct (map fst (fold (\<lambda>kv copy. AList.update (fst kv) (snd kv) copy) m acc))"
  by (induction m arbitrary: acc) (simp_all add: distinct_update)

lemma copySubscriptions_distinct: "distinct (map fst (copySubscriptions m))"
  using fold_update_distinct [of "[]" m] by (simp add: copySubscriptions_def)

lemma fold_update_keys:
  "fst ` set (fold (\<lambda>kv copy. AList.update (fst kv) (snd kv) copy) m acc) =
     fst ` set acc \<union> fst ` set m"
  by (induction m arbitrary: acc) (auto simp: dom_update)

lemma copySubscriptions_keys: "fst ` set (copySubscriptions m) = fst ` set m"
  using fold_update_keys [of m "[]"] by (simp add: copySubscriptions_def)

lemma copySubscriptions_idem: "copySubscriptions (copySubscriptions m) = copySubscriptions m"
  by (rule copySubscriptions_distinct_id) (rule copySubscriptions_distinct)

section \<open>What \<open>nfqueueCallback\<close> computes for a packet that reaches the fan-out\<close>

lemma Mirror_account [simp]:
  "MirrorNfqueueSubscriptions (account mess now s) = MirrorNfqueueSubscriptions s"
  by (simp add: MirrorNfqueueSubscriptions_def account_def)

lemma nfqueueCallback_Resolved_Inr:
  assumes p: "parseMessage packet len = Some mess0"
    and r: "resolveSession ctid mess0 pmark now st = Resolved stored session0 mess1 st1"
    and c: "nfqueueCallback ctid packet len pmark now st = Inr (out, st')"
  shows "out = (NfAccept, mergedMark pmark (fanoutResults ctid pmark now session0 mess1))"
    and "sessionTable st' = (sessionTable st1)(stored \<mapsto>
           afterFanout (fanoutResults ctid pmark now session0 mess1) (account mess1 now session0))"
    and "dict st' = bypassAfter (fanoutResults ctid pmark now session0 mess1)
           (account mess1 now session0) (dict st1)"
    and "nfqueueList st' = nfqueueList st1" and "sessionIndex st' = sessionIndex st1"
    and "\<exists>called. nfqueueTrace st' = nfqueueTrace st1 @
             map (\<lambda>c. (fst c, snd c, SessionID session0)) called \<and>
           mset called = mset (map (\<lambda>kv. (fst kv, Priority (snd kv)))
                                 (MirrorNfqueueSubscriptions session0))"
proof -
  let ?s = "account mess1 now session0"
  let ?m = "fanoutMessage mess1 now session0"
  let ?n = "pmark AND 0x10000000 \<noteq> 0"
  from c p r obtain v s' d' called where
    cs: "callSubscribers ctid ?s ?m pmark ?n (dict st1) = Inr (v, s', d', called)"
    and o: "out = v"
    and s: "st' = st1\<lparr>sessionTable := (sessionTable st1)(stored \<mapsto> s'), dict := d',
               nfqueueTrace := nfqueueTrace st1 @ map (\<lambda>c. (fst c, snd c, SessionID ?s)) called\<rparr>"
    by (auto simp: nfqueueCallback_def fanoutMessage_def Let_def split: sum.splits)
  note cI = callSubscribers_Inr [OF cs]
  show "out = (NfAccept, mergedMark pmark (fanoutResults ctid pmark now session0 mess1))"
    using cI(1) o by (simp add: fanoutResults_def)
  show "sessionTable st' = (sessionTable st1)(stored \<mapsto>
           afterFanout (fanoutResults ctid pmark now session0 mess1) ?s)"
    using cI(2) s by (simp add: fanoutResults_def)
  show "dict st' = bypassAfter (fanoutResults ctid pmark now session0 mess1) ?s (dict st1)"
    using cI(3) s by (simp add: fanoutResults_def)
  show "nfqueueList st' = nfqueueList st1" "sessionIndex st' = sessionIndex st1"
    using s by simp_all
  have "SessionID ?s = SessionID session0" by (simp add: account_def)
  then show "\<exists>called. nfqueueTrace st' = nfqueueTrace st1 @
             map (\<lambda>c. (fst c, snd c, SessionID session0)) called \<and>
           mset called = mset (map (\<lambda>kv. (fst kv, Priority (snd kv)))
                                 (MirrorNfqueueSubscriptions session0))"
    using cI(4) s by (intro exI [of _ called]) simp
qed

lemma nfqueueCallback_Resolved_total:
  assumes p: "parseMessage packet len = Some mess0"
    and r: "resolveSession ctid mess0 pmark now st = Resolved stored session0 mess1 st1"
    and i: "inRange (MirrorNfqueueSubscriptions session0)"
  shows "\<exists>out. nfqueueCallback ctid packet len pmark now st = Inr out"
proof -
  have "inRange (MirrorNfqueueSubscriptions (account mess1 now session0))" using i by simp
  from callSubscribers_total [OF this]
  obtain x where "callSubscribers ctid (account mess1 now session0)
      (mess1\<lparr>Session := Some (SessionFields.truncate (account mess1 now session0))\<rparr>)
      pmark (pmark AND 0x10000000 \<noteq> 0) (dict st1) = Inr x"
    by blast
  then show ?thesis using p r
    by (cases x) (auto simp: nfqueueCallback_def Let_def)
qed

lemma nfqueueCallback_Resolved_panic:
  assumes p: "parseMessage packet len = Some mess0"
    and r: "resolveSession ctid mess0 pmark now st = Resolved stored session0 mess1 st1"
    and i: "\<not> inRange (MirrorNfqueueSubscriptions session0)"
  shows "nfqueueCallback ctid packet len pmark now st = Inl ConstraintFailed"
proof -
  have "\<not> inRange (MirrorNfqueueSubscriptions (account mess1 now session0))" using i by simp
  from callSubscribers_panic [OF this]
  show ?thesis using p r
    by (simp add: nfqueueCallback_def Let_def)
qed

lemma resolveSession_Bypassed:
  "resolveSession ctid mess0 pmark now st = Bypassed v st' \<Longrightarrow> v = (NfAccept, pmark)"
  by (auto simp: resolveSession_def Let_def split: prod.splits option.splits if_splits)

lemma parse_synPacket: "parseMessage synPacket len = Some (synMessage len)"
  by (simp add: parseMessage_def parseIP_def parseTCP_def parseUDP_def parseICMPv4_def
      parsePayload_def zeroMessage_def synPacket_def dupIP_def synMessage_def)

lemma synMessage_keys:
  "Tuple_String (MsgTuple (synMessage len)) = ''6|10.0.0.1:50000-93.184.216.34:443''"
  "Tuple_StringReverse (MsgTuple (synMessage len)) = ''6|93.184.216.34:443-10.0.0.1:50000''"
  by (simp_all add: synMessage_def Tuple_String_def Tuple_StringReverse_def IP_String_def
      decimal.simps)

lemma copy_holders [simp]:
  "copySubscriptions [] = []"
  "copySubscriptions [holder a p f] = [holder a p f]"
  "a \<noteq> b \<Longrightarrow> copySubscriptions [holder a p f, holder b q g] = [holder a p f, holder b q g]"
  by (simp_all add: copySubscriptions_def holder_def)

text \<open>
  A packet that reaches the fan-out (it has an IP layer and \<open>resolveSession\<close> gives a
  session): whatever \<open>nfqueueCallback\<close> returns is \<open>NfAccept\<close> together with the input
  mark or-ed with the \<open>PacketMark\<close> of the result collected for every subscriber of the
  session's snapshot; it does return when the priorities of the snapshot are between 0
  and 99; and no call of \<open>nfqueueCallback\<close>, on any path, returns \<open>NfDrop\<close>.
\<close>

lemma nfqueueCallback_accept_and_merged_mark:
  assumes "parseMessage packet packetLength = Some mess0"
    and "resolveSession ctid mess0 pmark now st = Resolved stored session0 mess1 st1"
  shows "(\<forall>verdict mark st'.
            nfqueueCallback ctid packet packetLength pmark now st = Inr ((verdict, mark), st') \<longrightarrow>
            verdict = NfAccept \<and>
            mark = mergedMark pmark (fanoutResults ctid pmark now session0 mess1)) \<and>
         (inRange (MirrorNfqueueSubscriptions session0) \<longrightarrow>
            (\<exists>st'. nfqueueCallback ctid packet packetLength pmark now st =
               Inr ((NfAccept, mergedMark pmark (fanoutResults ctid pmark now session0 mess1)), st'))) \<and>
         (\<forall>c p l m n s mark st'. nfqueueCallback c p l m n s \<noteq> Inr ((NfDrop, mark), st'))"
proof (intro conjI allI impI)
  fix verdict mark st'
  assume "nfqueueCallback ctid packet packetLength pmark now st = Inr ((verdict, mark), st')"
  from nfqueueCallback_Resolved_Inr(1) [OF assms this]
  show "verdict = NfAccept" "mark = mergedMark pmark (fanoutResults ctid pmark now session0 mess1)"
    by simp_all
next
  assume "inRange (MirrorNfqueueSubscriptions session0)"
  from nfqueueCallback_Resolved_total [OF assms this]
  obtain out st' where o: "nfqueueCallback ctid packet packetLength pmark now st = Inr (out, st')"
    by (metis surj_pair)
  from nfqueueCallback_Resolved_Inr(1) [OF assms o] o
  show "\<exists>st'. nfqueueCallback ctid packet packetLength pmark now st =
               Inr ((NfAccept, mergedMark pmark (fanoutResults ctid pmark now session0 mess1)), st')"
    by auto
next
  fix c p l m n s mark st'
  show "nfqueueCallback c p l m n s \<noteq> Inr ((NfDrop, mark), st')"
  proof
    assume a: "nfqueueCallback c p l m n s = Inr ((NfDrop, mark), st')"
    show False
    proof (cases "parseMessage p l")
      case None
      with a show False by (simp add: nfqueueCallback_def NfDrop_def NfAccept_def)
    next
      case (Some mess0)
      show False
      proof (cases "resolveSession c mess0 m n s")
        case (Bypassed v st2)
        with a Some resolveSession_Bypassed [OF Bypassed] show False
          by (simp add: nfqueueCallback_def NfDrop_def NfAccept_def)
      next
        case (Resolved k s0 m1 s1)
        from nfqueueCallback_Resolved_Inr(1) [OF Some Resolved a] show False
          by (simp add: NfDrop_def NfAccept_def)
      qed
    qed
  qed
qed

lemma resolve_twoPlugins:
  "resolveSession 100 (synMessage 60) 0x10000000 5 twoPlugins =
     Resolved synKey
       (exampleSession 0x5BD9A1000000 100 1 60 False [holder ''A'' 0 markA, holder ''B'' 1 markB])
       ((synMessage 60)\<lparr>ClientToServer := True\<rparr>)
       (twoPlugins\<lparr>sessionIndex := 0x5BD9A1000001,
          sessionTable := [synKey \<mapsto>
            exampleSession 0x5BD9A1000000 100 1 60 False
              [holder ''A'' 0 markA, holder ''B'' 1 markB]]\<rparr>)"
  by (simp add: resolveSession_def lookupSessionEntry_def findSessionEntry_def synMessage_keys
      twoPlugins_def emptyDispatch_def createSessionEntry_def nextSessionID_def
      AttachNfqueueSubscriptions_def insertSessionEntry_def exampleSession_def synKey_def
      Let_def)
     (simp add: synMessage_def)

lemma scenario_1_accept_and_merged_mark:
  "\<exists>st'. nfqueueCallback 100 synPacket 60 0x10000000 5 twoPlugins =
           Inr ((NfAccept, 0x10000003), st')"
proof -
  have i: "inRange (MirrorNfqueueSubscriptions
     (exampleSession 0x5BD9A1000000 100 1 60 False [holder ''A'' 0 markA, holder ''B'' 1 markB]))"
    by (simp add: inRange_def MirrorNfqueueSubscriptions_def exampleSession_def)
       (simp add: holder_def)
  have m: "mergedMark 0x10000000 (fanoutResults 100 0x10000000 5
      (exampleSession 0x5BD9A1000000 100 1 60 False [holder ''A'' 0 markA, holder ''B'' 1 markB])
      ((synMessage 60)\<lparr>ClientToServer := True\<rparr>)) = 0x10000003"
    by (simp add: fanoutResults_def snapshotResults_def MirrorNfqueueSubscriptions_def
        exampleSession_def account_def)
       (simp add: mergedMark_def collectResult_def holder_def markA_def markB_def)
  show ?thesis
    using nfqueueCallback_accept_and_merged_mark [OF parse_synPacket resolve_twoPlugins] i m
    by simp
qed

lemma resolve_lastPriority:
  "resolveSession 100 (synMessage 60) 0x10000000 5 lastPriority =
     Resolved synKey
       (exampleSession 0x5BD9A1000000 100 1 60 False [holder ''A'' 0 markA, holder ''B'' 100 markB])
       ((synMessage 60)\<lparr>ClientToServer := True\<rparr>)
       (lastPriority\<lparr>sessionIndex := 0x5BD9A1000001,
          sessionTable := [synKey \<mapsto>
            exampleSession 0x5BD9A1000000 100 1 60 False
              [holder ''A'' 0 markA, holder ''B'' 100 markB]]\<rparr>)"
  by (simp add: resolveSession_def lookupSessionEntry_def findSessionEntry_def synMessage_keys
      lastPriority_def emptyDispatch_def createSessionEntry_def nextSessionID_def
      AttachNfqueueSubscriptions_def insertSessionEntry_def exampleSession_def synKey_def
      Let_def)
     (simp add: synMessage_def)

text \<open>
  C1.  Scenario 1 of the specification with plugin \<open>B\<close> at priority 100: the first packet
  of the flow has an IP layer and \<open>resolveSession\<close> gives the session created for it, so
  the packet reaches the fan-out.  The loop starts both handlers and merges their
  results; then its counter passes 100 and \<open>callSubscribers\<close> panics.  \<open>nfqueueCallback\<close>
  returns neither a verdict nor a mark, where the claim states \<open>NfAccept\<close> and the mark
  \<open>0x10000003\<close>.
\<close>

theorem packet_at_priority_100_gets_no_verdict:
  "parseMessage synPacket 60 = Some (synMessage 60) \<and>
   resolveSession 100 (synMessage 60) 0x10000000 5 lastPriority =
     Resolved synKey
       (exampleSession 0x5BD9A1000000 100 1 60 False [holder ''A'' 0 markA, holder ''B'' 100 markB])
       ((synMessage 60)\<lparr>ClientToServer := True\<rparr>)
       (lastPriority\<lparr>sessionIndex := 0x5BD9A1000001,
          sessionTable := [synKey \<mapsto>
            exampleSession 0x5BD9A1000000 100 1 60 False
              [holder ''A'' 0 markA, holder ''B'' 100 markB]]\<rparr>) \<and>
   nfqueueCallback 100 synPacket 60 0x10000000 5 lastPriority = Inl ConstraintFailed"
proof (intro conjI)
  show "parseMessage synPacket 60 = Some (synMessage 60)"
    by (rule parse_synPacket)
  show "resolveSession 100 (synMessage 60) 0x10000000 5 lastPriority =
     Resolved synKey
       (exampleSession 0x5BD9A1000000 100 1 60 False [holder ''A'' 0 markA, holder ''B'' 100 markB])
       ((synMessage 60)\<lparr>ClientToServer := True\<rparr>)
       (lastPriority\<lparr>sessionIndex := 0x5BD9A1000001,
          sessionTable := [synKey \<mapsto>
            exampleSession 0x5BD9A1000000 100 1 60 False
              [holder ''A'' 0 markA, holder ''B'' 100 markB]]\<rparr>)"
    by (rule resolve_lastPriority)
  have "\<not> inRange (MirrorNfqueueSubscriptions
      (exampleSession 0x5BD9A1000000 100 1 60 False [holder ''A'' 0 markA, holder ''B'' 100 markB]))"
    by (simp add: inRange_def MirrorNfqueueSubscriptions_def exampleSession_def)
       (simp add: holder_def)
  from nfqueueCallback_Resolved_panic [OF parse_synPacket resolve_lastPriority this]
  show "nfqueueCallback 100 synPacket 60 0x10000000 5 lastPriority = Inl ConstraintFailed" .
qed

section \<open>Running the loop on a concrete snapshot\<close>

lemma loop_done:
  "callSubscribers_loop sl tot mess ctid ns tot p acc cl = Inr (acc, cl)"
  by (subst callSubscribers_loop.simps) simp

lemma loop_step:
  "sc \<noteq> tot \<Longrightarrow> p < 100 \<Longrightarrow>
   callSubscribers_loop sl tot mess ctid ns sc p acc cl =
   callSubscribers_loop sl tot mess ctid ns (sc + length (layer p sl)) (p + 1)
     (fold mergeResult (map (collectResult mess ctid ns) (layer p sl)) acc)
     (cl @ map (\<lambda>kv. (fst kv, p)) (layer p sl))"
  by (subst callSubscribers_loop.simps) (simp add: Let_def)

section \<open>The session of a packet\<close>

lemma createSessionEntry_eq:
  "createSessionEntry mess ctid now st =
     (createdSession mess ctid now st,
      st\<lparr>sessionIndex := sessionIndex st + 1,
         sessionTable := (sessionTable st)(Tuple_String (MsgTuple mess) \<mapsto>
                            createdSession mess ctid now st)\<rparr>)"
  by (simp add: createSessionEntry_def nextSessionID_def AttachNfqueueSubscriptions_def
      insertSessionEntry_def createdSession_def Let_def)

lemma resolve_miss_new:
  assumes "findSessionEntry (Tuple_String (MsgTuple mess0)) st = None"
    and "findSessionEntry (Tuple_StringReverse (MsgTuple mess0)) st = None"
    and "pmark AND 0x10000000 \<noteq> 0"
  shows "resolveSession ctid mess0 pmark now st =
     Resolved (Tuple_String (MsgTuple mess0))
       (createdSession (mess0\<lparr>ClientToServer := True\<rparr>) ctid now st)
       (mess0\<lparr>ClientToServer := True\<rparr>)
       (st\<lparr>sessionIndex := sessionIndex st + 1,
          sessionTable := (sessionTable st)(Tuple_String (MsgTuple mess0) \<mapsto>
             createdSession (mess0\<lparr>ClientToServer := True\<rparr>) ctid now st)\<rparr>)"
  using assms
  by (simp add: resolveSession_def lookupSessionEntry_def createSessionEntry_eq Let_def)

lemma createdSession_simps [simp]:
  "subscriptions (createdSession mess ctid now st) = copySubscriptions (nfqueueList st)"
  "ConntrackID (createdSession mess ctid now st) = ctid"
  "SessionID (createdSession mess ctid now st) = sessionIndex st"
  "ConntrackConfirmed (createdSession mess ctid now st) = False"
  by (simp_all add: createdSession_def)

lemma Mirror_createdSession [simp]:
  "MirrorNfqueueSubscriptions (createdSession mess ctid now st) = copySubscriptions (nfqueueList st)"
  by (simp add: MirrorNfqueueSubscriptions_def copySubscriptions_idem)

lemma empty_table [simp]:
  "findSessionEntry key (emptyDispatch\<lparr>nfqueueList := l\<rparr>) = None"
  "findSessionEntry key emptyDispatch = None"
  by (simp_all add: findSessionEntry_def emptyDispatch_def)

section \<open>The priority bound of the loop\<close>

text \<open>
  C3.  A subscriber registered at priority 100, the upper end of the range the claim
  allows, and the first packet of a flow: the loop starts the handler in its turn for
  priority 100, merges the result, raises the counter to 101 and panics, although no
  subscriber is left to be called.
\<close>

theorem priority_100_panics:
  "nfqueueCallback 7 synPacket 60 0x10000000 5
     (InsertNfqueueSubscription ''A'' 100 markA emptyDispatch) = Inl ConstraintFailed"
proof -
  let ?st = "InsertNfqueueSubscription ''A'' 100 markA emptyDispatch"
  have l: "nfqueueList ?st = [holder ''A'' 100 markA]"
    by (simp add: InsertNfqueueSubscription_def emptyDispatch_def holder_def)
  have t: "findSessionEntry (Tuple_String (MsgTuple (synMessage 60))) ?st = None"
          "findSessionEntry (Tuple_StringReverse (MsgTuple (synMessage 60))) ?st = None"
    by (simp_all add: findSessionEntry_def InsertNfqueueSubscription_def emptyDispatch_def)
  have n: "(0x10000000 :: 32 word) AND 0x10000000 \<noteq> 0" by simp
  have "\<not> inRange (MirrorNfqueueSubscriptions
           (createdSession ((synMessage 60)\<lparr>ClientToServer := True\<rparr>) 7 5 ?st))"
    by (simp add: l inRange_def) (simp add: holder_def)
  from nfqueueCallback_Resolved_panic [OF parse_synPacket resolve_miss_new [OF t n] this]
  show ?thesis .
qed

lemma priority_100_in_snapshot_panics:
  assumes "(key, val) \<in> set (MirrorNfqueueSubscriptions s)" and "Priority val = 100"
  shows "callSubscribers ctid s mess pm ns d = Inl ConstraintFailed"
proof -
  have "\<not> inRange (MirrorNfqueueSubscriptions s)"
    using assms by (auto simp: inRange_def intro!: bexI [of _ "(key, val)"])
  then show ?thesis by (rule callSubscribers_panic)
qed

section \<open>The handlers started for one packet\<close>

lemma called_keys:
  assumes "mset called = mset (map (\<lambda>kv. (fst kv, Priority (snd kv))) sl)"
  shows "mset (map fst called) = mset (map fst sl)"
proof -
  have "mset (map fst called) = image_mset fst (mset called)" by simp
  also have "\<dots> = image_mset fst (mset (map (\<lambda>kv. (fst kv, Priority (snd kv))) sl))"
    using assms by simp
  also have "\<dots> = mset (map fst sl)" by (simp add: image_mset.compositionality comp_def)
  finally show ?thesis .
qed





section \<open>The bypass flag\<close>







section \<open>The counters of a new session\<close>

lemma callback_twoPlugins:
  "nfqueueCallback 100 synPacket 60 0x10000000 5 twoPlugins =
     Inr ((NfAccept, 0x10000003),
          twoPlugins\<lparr>sessionIndex := 0x5BD9A1000001,
            sessionTable := [synKey \<mapsto> exampleSession 0x5BD9A1000000 100 2 120 False
                               [holder ''A'' 0 markA, holder ''B'' 1 markB]],
            nfqueueTrace := [(''A'', 0, 0x5BD9A1000000), (''B'', 1, 0x5BD9A1000000)]\<rparr>)"
  by (simp add: nfqueueCallback_def parse_synPacket resolve_twoPlugins Let_def)
     (simp add: callSubscribers_def MirrorNfqueueSubscriptions_def account_def loop_done
        loop_step exampleSession_def layer_def holder_def collectResult_def mergeResult_eq
        markA_def markB_def copySubscriptions_def twoPlugins_def emptyDispatch_def
        synMessage_def)

text \<open>
  C2.  Scenario 1 of the specification, the first packet (60 bytes) of a new flow with
  plugins A and B registered: \<open>createSessionEntry\<close> sets the counters to 1, 60 and 1, and
  the accounting of \<open>nfqueueCallback\<close> then counts the same packet again.  The session
  left in the table has \<open>PacketCount = 2\<close>, \<open>ByteCount = 120\<close> and \<open>EventCount = 2\<close>.
\<close>

theorem first_packet_counted_twice:
  "nfqueueCallback 100 synPacket 60 0x10000000 5 twoPlugins =
     Inr ((NfAccept, 0x10000003),
          twoPlugins\<lparr>sessionIndex := 0x5BD9A1000001,
            sessionTable := [synKey \<mapsto> exampleSession 0x5BD9A1000000 100 2 120 False
                               [holder ''A'' 0 markA, holder ''B'' 1 markB]],
            nfqueueTrace := [(''A'', 0, 0x5BD9A1000000), (''B'', 1, 0x5BD9A1000000)]\<rparr>) \<and>
   PacketCount (exampleSession 0x5BD9A1000000 100 2 120 False
                  [holder ''A'' 0 markA, holder ''B'' 1 markB]) = 2 \<and>
   ByteCount (exampleSession 0x5BD9A1000000 100 2 120 False
                  [holder ''A'' 0 markA, holder ''B'' 1 markB]) = 120 \<and>
   EventCount (exampleSession 0x5BD9A1000000 100 2 120 False
                  [holder ''A'' 0 markA, holder ''B'' 1 markB]) = 2"
  using callback_twoPlugins by (simp add: exampleSession_def)

lemma new_flow_counters:
  assumes "parseMessage packet len = Some mess0"
    and "findSessionEntry (Tuple_String (MsgTuple mess0)) st = None"
    and "findSessionEntry (Tuple_StringReverse (MsgTuple mess0)) st = None"
    and "pmark AND 0x10000000 \<noteq> 0"
    and "nfqueueCallback ctid packet len pmark now st = Inr (out, st')"
  shows "\<exists>s. sessionTable st' (Tuple_String (MsgTuple mess0)) = Some s \<and>
           PacketCount s = 2 \<and> ByteCount s = 2 * word_of_int (Length mess0) \<and>
           EventCount s = 2"
proof -
  note r = resolve_miss_new [OF assms(2,3,4), of ctid now]
  from nfqueueCallback_Resolved_Inr(2) [OF assms(1) r assms(5)]
  show ?thesis
    by (simp add: afterFanout_def account_def createdSession_def)
qed

section \<open>A new flow that collides with a session of the table\<close>

lemma parse_replyPacket: "parseMessage replyPacket len = Some (replyMessage len)"
  by (simp add: parseMessage_def parseIP_def parseTCP_def parseUDP_def parseICMPv4_def
      parsePayload_def zeroMessage_def replyPacket_def dupIP_def replyMessage_def)

lemma replyMessage_keys:
  "Tuple_String (MsgTuple (replyMessage len)) = ''6|93.184.216.34:443-10.0.0.1:50000''"
  "Tuple_StringReverse (MsgTuple (replyMessage len)) = ''6|10.0.0.1:50000-93.184.216.34:443''"
  by (simp_all add: replyMessage_def Tuple_String_def Tuple_StringReverse_def IP_String_def
      decimal.simps)

lemma collision_confirmed_kept:
  assumes "lookupSessionEntry mess0 ctid st = (Some session, clientToServer)"
    and "pmark AND 0x10000000 \<noteq> 0" and "ConntrackConfirmed session"
  shows "resolveSession ctid mess0 pmark now st =
     Resolved (if clientToServer then Tuple_String (MsgTuple mess0)
               else Tuple_StringReverse (MsgTuple mess0))
       session (mess0\<lparr>ClientToServer := clientToServer\<rparr>) st"
  using assms by (simp add: resolveSession_def Let_def)

lemma collision_forward_replaced:
  assumes "findSessionEntry (Tuple_String (MsgTuple mess0)) st = Some session"
    and "pmark AND 0x10000000 \<noteq> 0" and "\<not> ConntrackConfirmed session"
  shows "resolveSession ctid mess0 pmark now st =
     Resolved (Tuple_String (MsgTuple mess0))
       (createdSession (mess0\<lparr>ClientToServer := True\<rparr>) ctid now st)
       (mess0\<lparr>ClientToServer := True\<rparr>)
       (st\<lparr>sessionIndex := sessionIndex st + 1,
          sessionTable := (sessionTable st)(Tuple_String (MsgTuple mess0) \<mapsto>
             createdSession (mess0\<lparr>ClientToServer := True\<rparr>) ctid now st)\<rparr>)"
  using assms
  by (simp add: resolveSession_def lookupSessionEntry_def createSessionEntry_eq Let_def
      removeSessionEntry_def createdSession_def)

lemma collision_reverse_not_removed:
  assumes "findSessionEntry (Tuple_String (MsgTuple mess0)) st = None"
    and "findSessionEntry (Tuple_StringReverse (MsgTuple mess0)) st = Some session"
    and "pmark AND 0x10000000 \<noteq> 0" and "\<not> ConntrackConfirmed session"
  shows "resolveSession ctid mess0 pmark now st =
     Resolved (Tuple_String (MsgTuple mess0))
       (createdSession (mess0\<lparr>ClientToServer := False\<rparr>) ctid now st)
       (mess0\<lparr>ClientToServer := False\<rparr>)
       (st\<lparr>sessionIndex := sessionIndex st + 1,
          sessionTable := (sessionTable st)(Tuple_String (MsgTuple mess0) \<mapsto>
             createdSession (mess0\<lparr>ClientToServer := False\<rparr>) ctid now st)\<rparr>)"
proof -
  have "(sessionTable st)(Tuple_String (MsgTuple mess0) := None) = sessionTable st"
    using assms(1) by (auto simp: findSessionEntry_def)
  then show ?thesis
    using assms
    by (simp add: resolveSession_def lookupSessionEntry_def createSessionEntry_eq Let_def
        removeSessionEntry_def createdSession_def)
qed

lemma resolve_staleFlow:
  "resolveSession 101 (synMessage 60) 0x10000000 6 staleFlow =
     Resolved synKey
       ((exampleSession 0x5BD9A1000001 101 1 60 False [])
          \<lparr>CreationTime := 6, LastActivityTime := 6\<rparr>)
       ((synMessage 60)\<lparr>ClientToServer := False\<rparr>)
       (staleFlow\<lparr>sessionIndex := 0x5BD9A1000002,
          sessionTable := [replyKey \<mapsto> reverseSession 0x5BD9A1000000 100 2 120 False [],
                           synKey \<mapsto> (exampleSession 0x5BD9A1000001 101 1 60 False [])
                                        \<lparr>CreationTime := 6, LastActivityTime := 6\<rparr>]\<rparr>)"
proof -
  have n: "(0x10000000 :: 32 word) AND 0x10000000 \<noteq> 0" by simp
  have f: "findSessionEntry (Tuple_String (MsgTuple (synMessage 60))) staleFlow = None"
    by (simp add: findSessionEntry_def staleFlow_def synMessage_keys replyKey_def)
  have r: "findSessionEntry (Tuple_StringReverse (MsgTuple (synMessage 60))) staleFlow =
             Some (reverseSession 0x5BD9A1000000 100 2 120 False [])"
    by (simp add: findSessionEntry_def staleFlow_def synMessage_keys replyKey_def)
  have u: "\<not> ConntrackConfirmed (reverseSession 0x5BD9A1000000 100 2 120 False [])"
    by (simp add: reverseSession_def exampleSession_def)
  show ?thesis
    by (simp add: collision_reverse_not_removed [OF f r n u] synMessage_keys synKey_def)
       (simp add: createdSession_def exampleSession_def staleFlow_def emptyDispatch_def
          synMessage_def)
qed

text \<open>
  C5.  The table holds an unconfirmed session (conntrack id 100, session id
  \<open>0x5BD9A1000000\<close>) for the flow 93.184.216.34:443 to 10.0.0.1:50000.  A packet
  10.0.0.1:50000 to 93.184.216.34:443 with the new-session bit and conntrack id 101
  finds it through the reverse tuple.  \<open>removeSessionEntry\<close> is given the forward key
  of the packet, under which nothing is stored, so the old session stays in the table
  under its own key, beside the session created for the packet.
\<close>

theorem reverse_collision_keeps_old_session:
  "nfqueueCallback 101 synPacket 60 0x10000000 6 staleFlow =
     Inr ((NfAccept, 0x10000000),
          staleFlow\<lparr>sessionIndex := 0x5BD9A1000002,
            sessionTable := [replyKey \<mapsto> reverseSession 0x5BD9A1000000 100 2 120 False [],
                             synKey \<mapsto> (exampleSession 0x5BD9A1000001 101 2 120 False [])
                                          \<lparr>CreationTime := 6, LastActivityTime := 6\<rparr>]\<rparr>) \<and>
   sessionTable staleFlow replyKey = Some (reverseSession 0x5BD9A1000000 100 2 120 False []) \<and>
   \<not> ConntrackConfirmed (reverseSession 0x5BD9A1000000 100 2 120 False []) \<and>
   findSessionEntry replyKey
     (staleFlow\<lparr>sessionIndex := 0x5BD9A1000002,
        sessionTable := [replyKey \<mapsto> reverseSession 0x5BD9A1000000 100 2 120 False [],
                         synKey \<mapsto> (exampleSession 0x5BD9A1000001 101 2 120 False [])
                                      \<lparr>CreationTime := 6, LastActivityTime := 6\<rparr>]\<rparr>) =
     Some (reverseSession 0x5BD9A1000000 100 2 120 False [])"
  by (simp add: nfqueueCallback_def parse_synPacket resolve_staleFlow Let_def)
     (simp add: callSubscribers_def MirrorNfqueueSubscriptions_def account_def loop_done
        exampleSession_def reverseSession_def copySubscriptions_def staleFlow_def
        emptyDispatch_def synMessage_def findSessionEntry_def synKey_def replyKey_def)

lemma collision_forward_session_id:
  assumes "findSessionEntry (Tuple_String (MsgTuple mess0)) st = Some session"
    and "SessionID session < sessionIndex st"
  shows "SessionID session < SessionID (createdSession mess ctid now st)"
  using assms by simp

section \<open>Registering a subscription\<close>

lemma InsertNfqueueSubscription_dispatch_duplicate:
  assumes "owner \<in> fst ` set nfqueueSubList"
  shows "InsertNfqueueSubscription_dispatch owner priority function nfqueueSubList =
           Inl DuplicateSubscription"
proof -
  have "map_of nfqueueSubList owner \<noteq> None"
    using assms by (simp add: map_of_eq_None_iff)
  then show ?thesis by (simp add: InsertNfqueueSubscription_dispatch_def Let_def)
qed

lemma InsertNfqueueSubscription_dispatch_fresh:
  assumes "owner \<notin> fst ` set nfqueueSubList"
  shows "InsertNfqueueSubscription_dispatch owner priority function nfqueueSubList =
           Inr (nfqueueSubList @ [holder owner priority function])"
proof -
  have "map_of nfqueueSubList owner = None"
    using assms by (simp add: map_of_eq_None_iff)
  then show ?thesis
    using update_fresh [OF assms]
    by (simp add: InsertNfqueueSubscription_dispatch_def Let_def holder_def)
qed

lemma InsertNfqueueSubscription_fresh:
  assumes "owner \<notin> fst ` set (nfqueueList st)"
  shows "InsertNfqueueSubscription owner priority function st =
           st\<lparr>nfqueueList := nfqueueList st @ [holder owner priority function]\<rparr>"
  using update_fresh [OF assms]
  by (simp add: InsertNfqueueSubscription_def Let_def holder_def)

text \<open>
  C8.  \<open>InsertNfqueueSubscription\<close> of \<open>part_000\<close>, the one that fills the registry
  \<open>nfqueueList\<close> which \<open>createSessionEntry\<close> attaches to a session: registering owner \<open>A\<close> a
  second time returns normally and replaces the first holder.  The function of the same
  name in \<open>part_002\<close> panics on the second registration
  (\<open>InsertNfqueueSubscription_dispatch_duplicate\<close>).
\<close>

theorem duplicate_owner_replaces_holder:
  "InsertNfqueueSubscription ''A'' 1 markB (InsertNfqueueSubscription ''A'' 0 markA emptyDispatch) =
     emptyDispatch\<lparr>nfqueueList := [holder ''A'' 1 markB]\<rparr> \<and>
   ''A'' \<in> fst ` set (nfqueueList (InsertNfqueueSubscription ''A'' 0 markA emptyDispatch)) \<and>
   InsertNfqueueSubscription_dispatch ''A'' 1 markB [holder ''A'' 0 markA] =
     Inl DuplicateSubscription"
  by (simp add: InsertNfqueueSubscription_def InsertNfqueueSubscription_dispatch_def
      emptyDispatch_def holder_def Let_def)

section \<open>Replaying a packet\<close>

lemma resolve_reuse_forward:
  assumes "findSessionEntry (Tuple_String (MsgTuple mess0)) st = Some s"
    and "pmark AND 0x10000000 = 0 \<or> ConntrackConfirmed s"
  shows "resolveSession ctid mess0 pmark now st =
           Resolved (Tuple_String (MsgTuple mess0)) s (mess0\<lparr>ClientToServer := True\<rparr>) st"
  using assms by (auto simp: resolveSession_def lookupSessionEntry_def Let_def)

lemma resolve_reuse_reverse:
  assumes "findSessionEntry (Tuple_String (MsgTuple mess0)) st = None"
    and "findSessionEntry (Tuple_StringReverse (MsgTuple mess0)) st = Some s"
    and "pmark AND 0x10000000 = 0 \<or> ConntrackConfirmed s"
  shows "resolveSession ctid mess0 pmark now st =
           Resolved (Tuple_StringReverse (MsgTuple mess0)) s
             (mess0\<lparr>ClientToServer := False\<rparr>) st"
  using assms by (auto simp: resolveSession_def lookupSessionEntry_def Let_def)

lemma resolve_Resolved_cases:
  assumes "resolveSession ctid mess0 pmark now st = Resolved stored session0 mess1 st'"
  shows "(st' = st \<and> (pmark AND 0x10000000 = 0 \<or> ConntrackConfirmed session0) \<and>
          ((stored = Tuple_String (MsgTuple mess0) \<and>
            findSessionEntry (Tuple_String (MsgTuple mess0)) st = Some session0 \<and>
            mess1 = mess0\<lparr>ClientToServer := True\<rparr>) \<or>
           (stored = Tuple_StringReverse (MsgTuple mess0) \<and>
            findSessionEntry (Tuple_String (MsgTuple mess0)) st = None \<and>
            findSessionEntry (Tuple_StringReverse (MsgTuple mess0)) st = Some session0 \<and>
            mess1 = mess0\<lparr>ClientToServer := False\<rparr>))) \<or>
         (pmark AND 0x10000000 \<noteq> 0 \<and> stored = Tuple_String (MsgTuple mess0) \<and>
          MirrorNfqueueSubscriptions session0 = copySubscriptions (nfqueueList st) \<and>
          \<not> ConntrackConfirmed session0 \<and> nfqueueList st' = nfqueueList st \<and>
          sessionTable st' stored = Some session0 \<and>
          mess1\<lparr>Session := None, ClientToServer := False\<rparr> =
            mess0\<lparr>Session := None, ClientToServer := False\<rparr>)"
proof (cases "findSessionEntry (Tuple_String (MsgTuple mess0)) st")
  case None
  note fwd = None
  show ?thesis
  proof (cases "findSessionEntry (Tuple_StringReverse (MsgTuple mess0)) st")
    case None
    with fwd assms show ?thesis
      by (auto simp: resolveSession_def lookupSessionEntry_def Let_def createSessionEntry_eq
          split: if_splits)
  next
    case (Some s)
    with fwd assms show ?thesis
      by (auto simp: resolveSession_def lookupSessionEntry_def Let_def createSessionEntry_eq
          removeSessionEntry_def split: if_splits)
  qed
next
  case (Some s)
  with assms show ?thesis
    by (auto simp: resolveSession_def lookupSessionEntry_def Let_def createSessionEntry_eq
        removeSessionEntry_def split: if_splits)
qed

lemma no_release_afterFanout:
  assumes "\<forall>r \<in> set rs. \<not> SessionRelease r"
  shows "afterFanout rs s = s" and "bypassAfter rs s d = d"
proof -
  have "releasedOwners rs = []"
    using assms by (simp add: releasedOwners_def filter_empty_conv)
  then show a: "afterFanout rs s = s" by (simp add: afterFanout_def)
  show "bypassAfter rs s d = d" by (auto simp: bypassAfter_def a)
qed

lemma fanoutResults_blind:
  assumes "\<forall>kv \<in> set (MirrorNfqueueSubscriptions s1). sessionBlind (NfqueueFunc (snd kv))"
    and "MirrorNfqueueSubscriptions s2 = MirrorNfqueueSubscriptions s1"
    and "m2\<lparr>Session := None, ClientToServer := False\<rparr> =
         m1\<lparr>Session := None, ClientToServer := False\<rparr>"
  shows "fanoutResults ctid pmark now2 s2 m2 = fanoutResults ctid pmark now1 s1 m1"
proof -
  have n: "(fanoutMessage m2 now2 s2)\<lparr>Session := None, ClientToServer := False\<rparr> =
           (fanoutMessage m1 now1 s1)\<lparr>Session := None, ClientToServer := False\<rparr>"
    using assms(3) by (simp add: fanoutMessage_def)
  have "collectResult (fanoutMessage m2 now2 s2) ctid (pmark AND 0x10000000 \<noteq> 0) kv =
        collectResult (fanoutMessage m1 now1 s1) ctid (pmark AND 0x10000000 \<noteq> 0) kv"
    if "kv \<in> set (MirrorNfqueueSubscriptions s1)" for kv
  proof -
    from that assms(1) have b: "sessionBlind (NfqueueFunc (snd kv))" by blast
    have "NfqueueFunc (snd kv) (fanoutMessage m2 now2 s2) ctid (pmark AND 0x10000000 \<noteq> 0) =
          NfqueueFunc (snd kv) ((fanoutMessage m2 now2 s2)\<lparr>Session := None, ClientToServer := False\<rparr>)
            ctid (pmark AND 0x10000000 \<noteq> 0)"
      using b unfolding sessionBlind_def by blast
    also have "\<dots> = NfqueueFunc (snd kv) ((fanoutMessage m1 now1 s1)\<lparr>Session := None, ClientToServer := False\<rparr>)
            ctid (pmark AND 0x10000000 \<noteq> 0)"
      by (simp only: n)
    also have "\<dots> = NfqueueFunc (snd kv) (fanoutMessage m1 now1 s1) ctid (pmark AND 0x10000000 \<noteq> 0)"
      using b unfolding sessionBlind_def by metis
    finally show ?thesis by (simp add: collectResult_def)
  qed
  then show ?thesis
    by (simp add: fanoutResults_def snapshotResults_def assms(2))
qed

lemma replay_step:
  assumes p: "parseMessage packet len = Some mess0"
    and r1: "resolveSession ctid mess0 pmark now st = Resolved stored session0 mess1 st'"
    and c1: "nfqueueCallback ctid packet len pmark now st = Inr (out, st1)"
    and r2: "resolveSession ctid mess0 pmark now2 st1 = Resolved stored2 session2 mess2 st2'"
    and mir: "MirrorNfqueueSubscriptions session2 = MirrorNfqueueSubscriptions session0"
    and nm: "mess2\<lparr>Session := None, ClientToServer := False\<rparr> =
             mess1\<lparr>Session := None, ClientToServer := False\<rparr>"
    and blind: "\<forall>kv \<in> set (MirrorNfqueueSubscriptions session0).
                  sessionBlind (NfqueueFunc (snd kv))"
  shows "\<exists>st2. nfqueueCallback ctid packet len pmark now2 st1 = Inr (out, st2)"
proof -
  have i: "inRange (MirrorNfqueueSubscriptions session0)"
  proof (rule ccontr)
    assume "\<not> inRange (MirrorNfqueueSubscriptions session0)"
    from nfqueueCallback_Resolved_panic [OF p r1 this] c1 show False by simp
  qed
  then have "inRange (MirrorNfqueueSubscriptions session2)" by (simp add: mir)
  from nfqueueCallback_Resolved_total [OF p r2 this]
  obtain out2 st2 where c2: "nfqueueCallback ctid packet len pmark now2 st1 = Inr (out2, st2)"
    by (metis surj_pair)
  have "out2 = (NfAccept, mergedMark pmark (fanoutResults ctid pmark now2 session2 mess2))"
    by (rule nfqueueCallback_Resolved_Inr(1) [OF p r2 c2])
  also have "fanoutResults ctid pmark now2 session2 mess2 =
             fanoutResults ctid pmark now session0 mess1"
    by (rule fanoutResults_blind [OF blind mir nm])
  also have "(NfAccept, mergedMark pmark (fanoutResults ctid pmark now session0 mess1)) = out"
    by (rule nfqueueCallback_Resolved_Inr(1) [OF p r1 c1, symmetric])
  finally show ?thesis using c2 by blast
qed

lemma resolve_Bypassed_cases:
  assumes "resolveSession ctid mess0 pmark now st = Bypassed v st'"
  shows "findSessionEntry (Tuple_String (MsgTuple mess0)) st = None \<and>
         findSessionEntry (Tuple_StringReverse (MsgTuple mess0)) st = None \<and>
         pmark AND 0x10000000 = 0 \<and> v = (NfAccept, pmark) \<and>
         sessionTable st' = sessionTable st"
  using assms
  by (auto simp: resolveSession_def lookupSessionEntry_def Let_def createSessionEntry_eq
      split: if_splits option.splits)

lemma resolve_bypass:
  assumes "findSessionEntry (Tuple_String (MsgTuple mess0)) st = None"
    and "findSessionEntry (Tuple_StringReverse (MsgTuple mess0)) st = None"
    and "pmark AND 0x10000000 = 0"
  shows "resolveSession ctid mess0 pmark now st =
           Bypassed (NfAccept, pmark)
             (st\<lparr>dict := AddSessionEntry ctid ''bypass_packetd'' True (dict st)\<rparr>)"
  using assms by (simp add: resolveSession_def lookupSessionEntry_def Let_def)

text \<open>
  C9, amended.  If the first invocation is quiet (the handlers it calls do not look at
  the session or the direction flag, and none of the results it collects asks for a
  release), then the second invocation with the same packet, conntrack id and mark, on
  the state the first one left, returns the same verdict and the same mark.
\<close>

theorem replay_same_verdict_and_mark:
  assumes c1: "nfqueueCallback ctid packet packetLength pmark now st = Inr (out, st1)"
    and q: "quietFanout ctid packet packetLength pmark now st"
  shows "\<exists>st2. nfqueueCallback ctid packet packetLength pmark now2 st1 = Inr (out, st2)"
proof (cases "parseMessage packet packetLength")
  case None
  with c1 show ?thesis by (simp add: nfqueueCallback_def)
next
  case (Some mess0)
  note p = Some
  let ?fwd = "Tuple_String (MsgTuple mess0)"
  let ?rev = "Tuple_StringReverse (MsgTuple mess0)"
  show ?thesis
  proof (cases "resolveSession ctid mess0 pmark now st")
    case (Bypassed v stb)
    from resolve_Bypassed_cases [OF Bypassed]
    have b: "findSessionEntry ?fwd st = None" "findSessionEntry ?rev st = None"
      "pmark AND 0x10000000 = 0" "v = (NfAccept, pmark)" "sessionTable stb = sessionTable st"
      by simp_all
    from c1 p Bypassed have o: "out = v" "st1 = stb"
      by (simp_all add: nfqueueCallback_def)
    have "findSessionEntry ?fwd st1 = None" "findSessionEntry ?rev st1 = None"
      using b o by (simp_all add: findSessionEntry_def)
    from resolve_bypass [OF this b(3)] p o b(4) show ?thesis
      by (simp add: nfqueueCallback_def)
  next
    case (Resolved stored session0 mess1 st')
    note r1 = Resolved
    from q p r1 have blind: "\<forall>kv \<in> set (MirrorNfqueueSubscriptions session0).
                               sessionBlind (NfqueueFunc (snd kv))"
      and quiet: "\<forall>r \<in> set (fanoutResults ctid pmark now session0 mess1). \<not> SessionRelease r"
      by (simp_all add: quietFanout_def)
    note cI = nfqueueCallback_Resolved_Inr [OF p r1 c1]
    let ?s1 = "account mess1 now session0"
    have tab: "sessionTable st1 = (sessionTable st')(stored \<mapsto> ?s1)"
      using cI(2) no_release_afterFanout(1) [OF quiet] by simp
    have conf: "ConntrackConfirmed ?s1 = ConntrackConfirmed session0"
      by (simp add: account_def)
    from resolve_Resolved_cases [OF r1]
    consider
      (fwd) "st' = st" "pmark AND 0x10000000 = 0 \<or> ConntrackConfirmed session0"
        "stored = ?fwd" "findSessionEntry ?fwd st = Some session0"
        "mess1 = mess0\<lparr>ClientToServer := True\<rparr>"
    | (rev) "st' = st" "pmark AND 0x10000000 = 0 \<or> ConntrackConfirmed session0"
        "stored = ?rev" "findSessionEntry ?fwd st = None"
        "findSessionEntry ?rev st = Some session0"
        "mess1 = mess0\<lparr>ClientToServer := False\<rparr>"
    | (new) "pmark AND 0x10000000 \<noteq> 0" "stored = ?fwd"
        "MirrorNfqueueSubscriptions session0 = copySubscriptions (nfqueueList st)"
        "\<not> ConntrackConfirmed session0" "nfqueueList st' = nfqueueList st"
        "mess1\<lparr>Session := None, ClientToServer := False\<rparr> =
           mess0\<lparr>Session := None, ClientToServer := False\<rparr>"
      by (elim disjE conjE) blast+
    then show ?thesis
    proof cases
      case fwd
      have f: "findSessionEntry ?fwd st1 = Some ?s1"
        using tab fwd(3) by (simp add: findSessionEntry_def)
      have k: "pmark AND 0x10000000 = 0 \<or> ConntrackConfirmed ?s1"
        using fwd(2) conf by simp
      have r2: "resolveSession ctid mess0 pmark now2 st1 = Resolved stored ?s1 mess1 st1"
        using resolve_reuse_forward [OF f k] fwd(3,5) by simp
      show ?thesis
        by (rule replay_step [OF p r1 c1 r2 _ _ blind]) simp_all
    next
      case rev
      have ne: "?fwd \<noteq> ?rev" using rev(4,5) by auto
      have f: "findSessionEntry ?fwd st1 = None"
        using tab rev(1,3,4) ne by (simp add: findSessionEntry_def)
      have g: "findSessionEntry ?rev st1 = Some ?s1"
        using tab rev(3) by (simp add: findSessionEntry_def)
      have k: "pmark AND 0x10000000 = 0 \<or> ConntrackConfirmed ?s1"
        using rev(2) conf by simp
      have r2: "resolveSession ctid mess0 pmark now2 st1 = Resolved stored ?s1 mess1 st1"
        using resolve_reuse_reverse [OF f g k] rev(3,6) by simp
      show ?thesis
        by (rule replay_step [OF p r1 c1 r2 _ _ blind]) simp_all
    next
      case new
      have f: "findSessionEntry ?fwd st1 = Some ?s1"
        using tab new(2) by (simp add: findSessionEntry_def)
      have u: "\<not> ConntrackConfirmed ?s1" using new(4) conf by simp
      note r2 = collision_forward_replaced [OF f new(1) u, of ctid now2]
      have l: "nfqueueList st1 = nfqueueList st" using cI(4) new(5) by simp
      show ?thesis
        by (rule replay_step [OF p r1 c1 r2 _ _ blind]) (simp_all add: l new(3) new(6))
    qed
  qed
qed

lemma openFlow_reached:
  "nfqueueCallback 100 synPacket 60 0x10000000 5
     (emptyDispatch\<lparr>nfqueueList := [holder ''A'' 0 releaseLater]\<rparr>) =
   Inr ((NfAccept, 0x10000001), openFlow)"
proof -
  have n: "(0x10000000 :: 32 word) AND 0x10000000 \<noteq> 0" by simp
  show ?thesis
    by (simp add: nfqueueCallback_def parse_synPacket resolve_miss_new [OF _ _ n] Let_def
          synMessage_keys)
       (simp add: callSubscribers_def MirrorNfqueueSubscriptions_def account_def loop_done
          loop_step exampleSession_def layer_def holder_def collectResult_def mergeResult_eq
          releaseLater_def copySubscriptions_def openFlow_def emptyDispatch_def
          synMessage_def synMessage_keys synKey_def createdSession_def)
qed

lemma resolve_openFlow:
  "resolveSession 100 (synMessage 60) 0 6 openFlow =
     Resolved synKey
       (exampleSession 0x5BD9A1000000 100 2 120 False [holder ''A'' 0 releaseLater])
       ((synMessage 60)\<lparr>ClientToServer := True\<rparr>) openFlow"
proof -
  have f: "findSessionEntry (Tuple_String (MsgTuple (synMessage 60))) openFlow =
      Some (exampleSession 0x5BD9A1000000 100 2 120 False [holder ''A'' 0 releaseLater])"
    by (simp add: findSessionEntry_def openFlow_def synMessage_keys synKey_def)
  have z: "(0 :: 32 word) AND 0x10000000 = 0 \<or> ConntrackConfirmed
      (exampleSession 0x5BD9A1000000 100 2 120 False [holder ''A'' 0 releaseLater])"
    by simp
  show ?thesis
    using resolve_reuse_forward [OF f z, of 100 6] by (simp add: synMessage_keys synKey_def)
qed

lemma resolve_releasedFlow:
  "resolveSession 100 (synMessage 60) 0 6 releasedFlow =
     Resolved synKey
       ((exampleSession 0x5BD9A1000000 100 3 180 False [])\<lparr>LastActivityTime := 6\<rparr>)
       ((synMessage 60)\<lparr>ClientToServer := True\<rparr>) releasedFlow"
proof -
  have f: "findSessionEntry (Tuple_String (MsgTuple (synMessage 60))) releasedFlow =
      Some ((exampleSession 0x5BD9A1000000 100 3 180 False [])\<lparr>LastActivityTime := 6\<rparr>)"
    by (simp add: findSessionEntry_def releasedFlow_def synMessage_keys synKey_def)
  have z: "(0 :: 32 word) AND 0x10000000 = 0 \<or> ConntrackConfirmed
      ((exampleSession 0x5BD9A1000000 100 3 180 False [])\<lparr>LastActivityTime := 6\<rparr>)"
    by simp
  show ?thesis
    using resolve_reuse_forward [OF f z, of 100 6] by (simp add: synMessage_keys synKey_def)
qed

text \<open>
  C9, as stated, fails.  The handler is a function of its arguments.  On a flow whose
  session still has it subscribed, the packet with mark 0 is answered with mark 1 and the
  handler's release empties the session's map; the identical packet, conntrack id and
  mark once more finds no subscriber and is answered with mark 0.
\<close>

theorem replay_after_release_changes_mark:
  "nfqueueCallback 100 synPacket 60 0 6 openFlow = Inr ((NfAccept, 1), releasedFlow) \<and>
   nfqueueCallback 100 synPacket 60 0 6 releasedFlow =
     Inr ((NfAccept, 0),
          releasedFlow\<lparr>sessionTable :=
            [synKey \<mapsto> (exampleSession 0x5BD9A1000000 100 4 240 False [])
                          \<lparr>LastActivityTime := 6\<rparr>]\<rparr>)"
proof
  show "nfqueueCallback 100 synPacket 60 0 6 openFlow = Inr ((NfAccept, 1), releasedFlow)"
    by (simp add: nfqueueCallback_def parse_synPacket resolve_openFlow Let_def)
       (simp add: callSubscribers_def MirrorNfqueueSubscriptions_def account_def loop_done
          loop_step exampleSession_def layer_def holder_def collectResult_def mergeResult_eq
          releaseLater_def copySubscriptions_def openFlow_def releasedFlow_def
          emptyDispatch_def synMessage_def)
  show "nfqueueCallback 100 synPacket 60 0 6 releasedFlow =
     Inr ((NfAccept, 0),
          releasedFlow\<lparr>sessionTable :=
            [synKey \<mapsto> (exampleSession 0x5BD9A1000000 100 4 240 False [])
                          \<lparr>LastActivityTime := 6\<rparr>]\<rparr>)"
    by (simp add: nfqueueCallback_def parse_synPacket resolve_releasedFlow Let_def)
       (simp add: callSubscribers_def MirrorNfqueueSubscriptions_def account_def loop_done
          exampleSession_def copySubscriptions_def openFlow_def releasedFlow_def
          emptyDispatch_def synMessage_def)
qed

lemma quiet_twoPlugins: "quietFanout 100 synPacket 60 0x10000000 5 twoPlugins"
  by (simp add: quietFanout_def parse_synPacket resolve_twoPlugins)
     (simp add: MirrorNfqueueSubscriptions_def exampleSession_def fanoutResults_def
        snapshotResults_def account_def holder_def sessionBlind_def markA_def markB_def
        collectResult_def copySubscriptions_def)

theorem replay_same_verdict_and_mark_witness:
  "quietFanout 100 synPacket 60 0x10000000 5 twoPlugins \<and>
   (\<exists>st2. nfqueueCallback 100 synPacket 60 0x10000000 6
       (twoPlugins\<lparr>sessionIndex := 0x5BD9A1000001,
          sessionTable := [synKey \<mapsto> exampleSession 0x5BD9A1000000 100 2 120 False
                             [holder ''A'' 0 markA, holder ''B'' 1 markB]],
          nfqueueTrace := [(''A'', 0, 0x5BD9A1000000), (''B'', 1, 0x5BD9A1000000)]\<rparr>) =
     Inr ((NfAccept, 0x10000003), st2))"
  using quiet_twoPlugins
    replay_same_verdict_and_mark [OF callback_twoPlugins quiet_twoPlugins, of 6]
  by (rule conjI)

section \<open>The guard timer\<close>

lemma mergedMark_without:
  "\<forall>kv \<in> set sl. fst kv = key \<longrightarrow> PacketMark (g kv) = 0 \<Longrightarrow>
   mergedMark pm (map g sl) = mergedMark pm (map g (filter (\<lambda>kv. fst kv \<noteq> key) sl))"
  by (induction sl arbitrary: pm) (simp_all add: mergedMark_def)

lemma Mirror_unique:
  assumes "(key, val) \<in> set (MirrorNfqueueSubscriptions s)"
    and "kv \<in> set (MirrorNfqueueSubscriptions s)" and "fst kv = key"
  shows "kv = (key, val)"
proof -
  have "distinct (map fst (MirrorNfqueueSubscriptions s))"
    by (simp add: MirrorNfqueueSubscriptions_def copySubscriptions_distinct)
  moreover have "(key, snd kv) = kv"
    using assms(3) by (simp add: prod_eq_iff)
  then have "(key, snd kv) \<in> set (MirrorNfqueueSubscriptions s)"
    using assms(2) by simp
  ultimately have "snd kv = val"
    using assms(1) by (meson eq_key_imp_eq_value)
  with assms(3) show ?thesis by (cases kv) simp
qed

lemma called_key_set:
  assumes "mset called = mset (map (\<lambda>kv. (fst kv, Priority (snd kv))) sl)"
  shows "fst ` set called = fst ` set sl"
proof -
  have "set (map fst called) = set (map fst sl)"
    using called_keys [OF assms] by (rule mset_eq_setD)
  then show ?thesis by simp
qed

lemma resolve_Resolved_index:
  assumes "resolveSession ctid mess0 pmark now st = Resolved stored session0 mess1 st1"
  shows "(sessionIndex st1 = sessionIndex st \<and> st1 = st \<and>
          sessionTable st stored = Some session0) \<or>
         (sessionIndex st1 = sessionIndex st + 1 \<and>
          (\<forall>k. k \<noteq> stored \<longrightarrow> sessionTable st1 k = sessionTable st k))"
proof (cases "findSessionEntry (Tuple_String (MsgTuple mess0)) st")
  case None
  note fwd = None
  show ?thesis
  proof (cases "findSessionEntry (Tuple_StringReverse (MsgTuple mess0)) st")
    case None
    with fwd assms show ?thesis
      by (auto simp: resolveSession_def lookupSessionEntry_def Let_def createSessionEntry_eq
          findSessionEntry_def split: if_splits)
  next
    case (Some s)
    with fwd assms show ?thesis
      by (auto simp: resolveSession_def lookupSessionEntry_def Let_def createSessionEntry_eq
          removeSessionEntry_def findSessionEntry_def split: if_splits)
  qed
next
  case (Some s)
  with assms show ?thesis
    by (auto simp: resolveSession_def lookupSessionEntry_def Let_def createSessionEntry_eq
        removeSessionEntry_def findSessionEntry_def split: if_splits)
qed

lemma released_step:
  assumes t: "sessionTable st1 stored = Some s"
    and k: "key \<notin> fst ` set (subscriptions s)"
    and c: "nfqueueCallback ctid packet len pmark now st1 = Inr (v, st2)"
    and n: "\<not> replacesSession stored ctid packet len pmark now st1"
  shows "\<exists>s'. sessionTable st2 stored = Some s' \<and> SessionID s' = SessionID s \<and>
           key \<notin> fst ` set (subscriptions s')"
proof (cases "parseMessage packet len")
  case None
  with c t k show ?thesis by (simp add: nfqueueCallback_def)
next
  case (Some mess0)
  note p = Some
  show ?thesis
  proof (cases "resolveSession ctid mess0 pmark now st1")
    case (Bypassed w stb)
    from resolve_Bypassed_cases [OF Bypassed] have "sessionTable stb = sessionTable st1" by simp
    moreover from c p Bypassed have "st2 = stb" by (simp add: nfqueueCallback_def)
    ultimately show ?thesis using t k by simp
  next
    case (Resolved k0 s0 m1 stR)
    note cI = nfqueueCallback_Resolved_Inr [OF p Resolved c]
    let ?R = "fanoutResults ctid pmark now s0 m1"
    have tab: "sessionTable st2 = (sessionTable stR)(k0 \<mapsto> afterFanout ?R (account m1 now s0))"
      by (rule cI(2))
    from n p Resolved have nr: "k0 \<noteq> stored \<or> sessionIndex stR = sessionIndex st1"
      by (simp add: replacesSession_def)
    show ?thesis
    proof (cases "k0 = stored")
      case True
      with nr have "sessionIndex stR = sessionIndex st1" by simp
      with resolve_Resolved_index [OF Resolved] have "stR = st1" "sessionTable st1 k0 = Some s0"
        by auto
      with True t have s0: "s0 = s" by simp
      have "sessionTable st2 stored = Some (afterFanout ?R (account m1 now s0))"
        using tab True by simp
      moreover have "SessionID (afterFanout ?R (account m1 now s0)) = SessionID s"
        using s0 by (simp add: afterFanout_def account_def)
      moreover have "key \<notin> fst ` set (subscriptions (afterFanout ?R (account m1 now s0)))"
        using s0 k by (auto simp: afterFanout_def account_def)
      ultimately show ?thesis by blast
    next
      case False
      then have "sessionTable stR stored = sessionTable st1 stored"
        using resolve_Resolved_index [OF Resolved] by auto
      then have "sessionTable st2 stored = Some s"
        using tab False t by simp
      then show ?thesis using k by simp
    qed
  qed
qed

lemma released_later:
  assumes "later stored st st2"
    and "sessionTable st stored = Some s" and "key \<notin> fst ` set (subscriptions s)"
  shows "\<exists>s'. sessionTable st2 stored = Some s' \<and> SessionID s' = SessionID s \<and>
           key \<notin> fst ` set (subscriptions s')"
  using assms
proof (induction rule: later.induct)
  case same
  then show ?case by simp
next
  case (packet st1 ctid pkt len pmark now verdict st2)
  from packet.IH [OF packet.prems] obtain s1 where
    s1: "sessionTable st1 stored = Some s1" "SessionID s1 = SessionID s"
        "key \<notin> fst ` set (subscriptions s1)"
    by blast
  from released_step [OF s1(1) s1(3) packet.hyps(2) packet.hyps(3)] s1(2)
  show ?case by auto
next
  case (registration st1 owner priority handler)
  from registration.IH [OF registration.prems]
  show ?case by (simp add: InsertNfqueueSubscription_def Let_def)
qed

lemma onSession_not_started:
  assumes t: "sessionTable st2 stored = Some s"
    and k: "key \<notin> fst ` set (subscriptions s)"
    and o: "onSession stored ctid packet len pmark now st2"
    and c: "nfqueueCallback ctid packet len pmark now st2 = Inr (v, st3)"
  shows "key \<notin> set (startedBy st2 st3)"
proof -
  from o obtain mess0 s0 m1 stR where
    p: "parseMessage packet len = Some mess0"
    and r: "resolveSession ctid mess0 pmark now st2 = Resolved stored s0 m1 stR"
    and i: "sessionIndex stR = sessionIndex st2"
    by (auto simp: onSession_def split: option.splits resolution.splits)
  from resolve_Resolved_index [OF r] i have e: "stR = st2" "sessionTable st2 stored = Some s0"
    by auto
  with t have s0: "s0 = s" by simp
  from nfqueueCallback_Resolved_Inr(6) [OF p r c] obtain called where
    tr: "nfqueueTrace st3 = nfqueueTrace stR @ map (\<lambda>c. (fst c, snd c, SessionID s0)) called"
    and ms: "mset called = mset (map (\<lambda>kv. (fst kv, Priority (snd kv)))
                                 (MirrorNfqueueSubscriptions s0))"
    by blast
  have "fst ` set called = fst ` set (MirrorNfqueueSubscriptions s0)"
    using ms by (rule called_key_set)
  then have "key \<notin> fst ` set called"
    using k s0 by (simp add: MirrorNfqueueSubscriptions_def copySubscriptions_keys)
  moreover have "startedBy st2 st3 = map fst called"
    using tr e(1) by (simp add: startedBy_def comp_def)
  ultimately show ?thesis by simp
qed

text \<open>
  C7.  A packet reaches the fan-out and the handler of a subscriber \<open>(key, val)\<close> of the
  snapshot is overtaken by the guard timer.  The result merged for it is
  \<open>NfqueueResult{key, 0, true}\<close>.  \<open>nfqueueCallback\<close> returns when the priorities of the
  snapshot are between 0 and 99, and whenever it returns: the mark it returns is the
  input mark or-ed with the results of the other subscribers only; the session it leaves
  in the table has no entry for \<open>key\<close> in its subscription map; and in every later state,
  after any packets and registrations that leave that session in its place, a packet on
  that session starts no handler under \<open>key\<close>.
\<close>

theorem guard_timeout_releases_owner:
  assumes p: "parseMessage packet packetLength = Some mess0"
    and r: "resolveSession ctid mess0 pmark now st = Resolved stored session0 mess1 st1"
    and k: "(key, val) \<in> set (MirrorNfqueueSubscriptions session0)"
    and t: "NfqueueFunc val (fanoutMessage mess1 now session0) ctid (pmark AND 0x10000000 \<noteq> 0) = None"
  shows "collectResult (fanoutMessage mess1 now session0) ctid (pmark AND 0x10000000 \<noteq> 0) (key, val) =
           \<lparr>NfqueueResult.Owner = key, PacketMark = 0, SessionRelease = True\<rparr> \<and>
         (inRange (MirrorNfqueueSubscriptions session0) \<longrightarrow>
            (\<exists>out st'. nfqueueCallback ctid packet packetLength pmark now st = Inr (out, st'))) \<and>
         (\<forall>out st'. nfqueueCallback ctid packet packetLength pmark now st = Inr (out, st') \<longrightarrow>
            out = (NfAccept, mergedMark pmark
                     (map (collectResult (fanoutMessage mess1 now session0) ctid
                             (pmark AND 0x10000000 \<noteq> 0))
                        (filter (\<lambda>kv. fst kv \<noteq> key) (MirrorNfqueueSubscriptions session0)))) \<and>
            (\<exists>s'. sessionTable st' stored = Some s' \<and> key \<notin> fst ` set (subscriptions s')) \<and>
            (\<forall>st2 ctid2 packet2 packetLength2 pmark2 now2 out2 st3.
               later stored st' st2 \<longrightarrow>
               onSession stored ctid2 packet2 packetLength2 pmark2 now2 st2 \<longrightarrow>
               nfqueueCallback ctid2 packet2 packetLength2 pmark2 now2 st2 = Inr (out2, st3) \<longrightarrow>
               key \<notin> set (startedBy st2 st3)))"
proof (intro conjI allI impI)
  let ?m = "fanoutMessage mess1 now session0"
  let ?n = "pmark AND 0x10000000 \<noteq> 0"
  let ?R = "fanoutResults ctid pmark now session0 mess1"
  show c: "collectResult ?m ctid ?n (key, val) =
             \<lparr>NfqueueResult.Owner = key, PacketMark = 0, SessionRelease = True\<rparr>"
    using t by (simp add: collectResult_def)
  have R: "?R = map (collectResult ?m ctid ?n) (MirrorNfqueueSubscriptions session0)"
    by (simp add: fanoutResults_def snapshotResults_def)
  have rel: "key \<in> set (releasedOwners ?R)"
  proof -
    have "collectResult ?m ctid ?n (key, val) \<in> set ?R"
      using k by (simp add: R)
    then have "NfqueueResult.Owner (collectResult ?m ctid ?n (key, val)) \<in> set (releasedOwners ?R)"
      unfolding releasedOwners_def using c by (auto intro!: image_eqI)
    then show ?thesis using c by simp
  qed
  {
    assume "inRange (MirrorNfqueueSubscriptions session0)"
    from nfqueueCallback_Resolved_total [OF p r this]
    show "\<exists>out st'. nfqueueCallback ctid packet packetLength pmark now st = Inr (out, st')"
      by (metis surj_pair)
  }
  fix out st'
  assume cb: "nfqueueCallback ctid packet packetLength pmark now st = Inr (out, st')"
  note cI = nfqueueCallback_Resolved_Inr [OF p r cb]
  have "\<forall>kv \<in> set (MirrorNfqueueSubscriptions session0).
          fst kv = key \<longrightarrow> PacketMark (collectResult ?m ctid ?n kv) = 0"
    using Mirror_unique [OF k] c by auto
  from mergedMark_without [OF this]
  show "out = (NfAccept, mergedMark pmark
                 (map (collectResult ?m ctid ?n)
                    (filter (\<lambda>kv. fst kv \<noteq> key) (MirrorNfqueueSubscriptions session0))))"
    using cI(1) by (simp add: R)
  have tab: "sessionTable st' stored = Some (afterFanout ?R (account mess1 now session0))"
    using cI(2) by simp
  have gone: "key \<notin> fst ` set (subscriptions (afterFanout ?R (account mess1 now session0)))"
    using rel by (auto simp: afterFanout_def)
  from tab gone
  show "\<exists>s'. sessionTable st' stored = Some s' \<and> key \<notin> fst ` set (subscriptions s')"
    by blast
  fix st2 ctid2 packet2 packetLength2 pmark2 now2 out2 st3
  assume l: "later stored st' st2"
    and o: "onSession stored ctid2 packet2 packetLength2 pmark2 now2 st2"
    and c2: "nfqueueCallback ctid2 packet2 packetLength2 pmark2 now2 st2 = Inr (out2, st3)"
  from released_later [OF l tab gone] obtain s2 where
    "sessionTable st2 stored = Some s2" "key \<notin> fst ` set (subscriptions s2)"
    by blast
  then show "key \<notin> set (startedBy st2 st3)"
    using o c2 by (rule onSession_not_started)
qed

lemma resolve_sleeperPlugins:
  "resolveSession 7 (synMessage 60) 0x10000000 5 sleeperPlugins =
     Resolved synKey
       (exampleSession 0x5BD9A1000000 7 1 60 False [holder ''S'' 0 sleeper, holder ''A'' 1 markA])
       ((synMessage 60)\<lparr>ClientToServer := True\<rparr>)
       (sleeperPlugins\<lparr>sessionIndex := 0x5BD9A1000001,
          sessionTable := [synKey \<mapsto>
            exampleSession 0x5BD9A1000000 7 1 60 False
              [holder ''S'' 0 sleeper, holder ''A'' 1 markA]]\<rparr>)"
  by (simp add: resolveSession_def lookupSessionEntry_def findSessionEntry_def synMessage_keys
      sleeperPlugins_def emptyDispatch_def createSessionEntry_def nextSessionID_def
      AttachNfqueueSubscriptions_def insertSessionEntry_def exampleSession_def synKey_def
      Let_def)
     (simp add: synMessage_def)

lemma callback_sleeperPlugins:
  "nfqueueCallback 7 synPacket 60 0x10000000 5 sleeperPlugins =
     Inr ((NfAccept, 0x10000001), timedOutFlow)"
  by (simp add: nfqueueCallback_def parse_synPacket resolve_sleeperPlugins Let_def)
     (simp add: callSubscribers_def MirrorNfqueueSubscriptions_def account_def loop_done
        loop_step exampleSession_def layer_def holder_def collectResult_def mergeResult_eq
        sleeper_def markA_def copySubscriptions_def sleeperPlugins_def timedOutFlow_def
        emptyDispatch_def synMessage_def)

lemma resolve_timedOutFlow:
  "resolveSession 7 (synMessage 60) 0 6 timedOutFlow =
     Resolved synKey (exampleSession 0x5BD9A1000000 7 2 120 False [holder ''A'' 1 markA])
       ((synMessage 60)\<lparr>ClientToServer := True\<rparr>) timedOutFlow"
proof -
  have f: "findSessionEntry (Tuple_String (MsgTuple (synMessage 60))) timedOutFlow =
      Some (exampleSession 0x5BD9A1000000 7 2 120 False [holder ''A'' 1 markA])"
    by (simp add: findSessionEntry_def timedOutFlow_def synMessage_keys synKey_def)
  have z: "(0 :: 32 word) AND 0x10000000 = 0 \<or> ConntrackConfirmed
      (exampleSession 0x5BD9A1000000 7 2 120 False [holder ''A'' 1 markA])"
    by simp
  show ?thesis
    using resolve_reuse_forward [OF f z, of 7 6] by (simp add: synMessage_keys synKey_def)
qed

lemma callback_timedOutFlow:
  "nfqueueCallback 7 synPacket 60 0 6 timedOutFlow = Inr ((NfAccept, 1), timedOutFlow2)"
  by (simp add: nfqueueCallback_def parse_synPacket resolve_timedOutFlow Let_def)
     (simp add: callSubscribers_def MirrorNfqueueSubscriptions_def account_def loop_done
        loop_step exampleSession_def layer_def holder_def collectResult_def mergeResult_eq
        markA_def copySubscriptions_def sleeperPlugins_def timedOutFlow_def timedOutFlow2_def
        emptyDispatch_def synMessage_def)

lemma resolve_timedOutFlow2:
  "resolveSession 7 (synMessage 60) 0 7 timedOutFlow2 =
     Resolved synKey
       ((exampleSession 0x5BD9A1000000 7 3 180 False [holder ''A'' 1 markA])
          \<lparr>LastActivityTime := 6\<rparr>)
       ((synMessage 60)\<lparr>ClientToServer := True\<rparr>) timedOutFlow2"
proof -
  have f: "findSessionEntry (Tuple_String (MsgTuple (synMessage 60))) timedOutFlow2 =
      Some ((exampleSession 0x5BD9A1000000 7 3 180 False [holder ''A'' 1 markA])
              \<lparr>LastActivityTime := 6\<rparr>)"
    by (simp add: findSessionEntry_def timedOutFlow2_def synMessage_keys synKey_def)
  have z: "(0 :: 32 word) AND 0x10000000 = 0 \<or> ConntrackConfirmed
      ((exampleSession 0x5BD9A1000000 7 3 180 False [holder ''A'' 1 markA])
         \<lparr>LastActivityTime := 6\<rparr>)"
    by simp
  show ?thesis
    using resolve_reuse_forward [OF f z, of 7 7] by (simp add: synMessage_keys synKey_def)
qed

lemma callback_timedOutFlow2:
  "nfqueueCallback 7 synPacket 60 0 7 timedOutFlow2 = Inr ((NfAccept, 1), timedOutFlow3)"
  by (simp add: nfqueueCallback_def parse_synPacket resolve_timedOutFlow2 Let_def)
     (simp add: callSubscribers_def MirrorNfqueueSubscriptions_def account_def loop_done
        loop_step exampleSession_def layer_def holder_def collectResult_def mergeResult_eq
        markA_def copySubscriptions_def sleeperPlugins_def timedOutFlow_def timedOutFlow2_def
        timedOutFlow3_def emptyDispatch_def synMessage_def)

lemma sleeper_in_snapshot:
  "(''S'', snd (holder ''S'' 0 sleeper)) \<in> set (MirrorNfqueueSubscriptions
      (exampleSession 0x5BD9A1000000 7 1 60 False [holder ''S'' 0 sleeper, holder ''A'' 1 markA]))"
  by (simp add: MirrorNfqueueSubscriptions_def exampleSession_def)
     (simp add: holder_def)

lemma sleeper_times_out:
  "NfqueueFunc (snd (holder ''S'' 0 sleeper)) mess ctid newSession = None"
  by (simp add: holder_def sleeper_def)

lemma later_timedOutFlow2: "later synKey timedOutFlow timedOutFlow2"
proof -
  have "\<not> replacesSession synKey 7 synPacket 60 0 6 timedOutFlow"
    by (simp add: replacesSession_def parse_synPacket resolve_timedOutFlow)
  with later.same [of synKey timedOutFlow] callback_timedOutFlow
  show ?thesis by (rule later.packet)
qed

lemma onSession_timedOutFlow2: "onSession synKey 7 synPacket 60 0 7 timedOutFlow2"
  by (simp add: onSession_def parse_synPacket resolve_timedOutFlow2)

theorem guard_timeout_releases_owner_witness:
  "nfqueueCallback 7 synPacket 60 0x10000000 5 sleeperPlugins =
     Inr ((NfAccept, 0x10000001), timedOutFlow) \<and>
   (\<exists>s'. sessionTable timedOutFlow synKey = Some s' \<and> ''S'' \<notin> fst ` set (subscriptions s')) \<and>
   nfqueueCallback 7 synPacket 60 0 7 timedOutFlow2 = Inr ((NfAccept, 1), timedOutFlow3) \<and>
   ''S'' \<notin> set (startedBy timedOutFlow2 timedOutFlow3)"
proof -
  note t = guard_timeout_releases_owner
    [OF parse_synPacket resolve_sleeperPlugins sleeper_in_snapshot sleeper_times_out]
  note after = t [THEN conjunct2, THEN conjunct2, rule_format, OF callback_sleeperPlugins]
  from callback_sleeperPlugins after [THEN conjunct2, THEN conjunct1] callback_timedOutFlow2
    after [THEN conjunct2, THEN conjunct2, rule_format,
           OF later_timedOutFlow2 onSession_timedOutFlow2 callback_timedOutFlow2]
  show ?thesis by (intro conjI)
qed

end
